theory Spec2Isabelle
  imports Main "HOL-Library.Multiset" "HOL-Library.Sublist"
begin

section \<open>JavaScript values used by the review pipeline\<close>

text \<open>
  A JavaScript string is modelled as a \<^typ>\<open>string\<close>, one \<^typ>\<open>char\<close> per UTF-16 code
  unit, so that \<^const>\<open>length\<close> is the \<^verbatim>\<open>.length\<close> of the source; a \<^typ>\<open>char\<close> has 256
  values, so the model covers the strings whose code units are below 256. Lengths of
  strings and arrays and the loop counters of the source (\<^verbatim>\<open>attempts\<close>,
  \<^verbatim>\<open>currentChunkSize\<close>, \<^verbatim>\<open>chunkOverlap\<close>) are whole numbers far below \<open>2^53\<close>, where the
  arithmetic of JavaScript numbers is exact; they are modelled as \<^typ>\<open>nat\<close>.
\<close>

subsection \<open>Numbers that come from outside\<close>

text \<open>
  A number that the program reads from a text (the counts in the model's JSON answer, the
  digits of a rating) is an IEEE double. \<open>Whole n\<close> is the double whose value is the whole
  number \<open>n\<close>; \<open>Other\<close> is any other number (a fraction, an infinity), and also the
  result of an operation that the model does not follow: two numbers that are both
  \<open>Other\<close> need not be the same number.
\<close>

datatype jsNumber = Whole int | Other

text \<open>The number of binary digits of a natural number.\<close>

fun bitLength :: "nat \<Rightarrow> nat" where
  "bitLength n = (if n = 0 then 0 else bitLength (n div 2) + 1)"

declare bitLength.simps [simp del]

text \<open>
  Rounding of a natural number to 53 significant binary digits, to the nearest such number
  and to the one with an even last digit when two are equally near. Up to \<open>2^53\<close> every
  natural number has at most 53 significant digits.
\<close>

definition roundNat :: "nat \<Rightarrow> nat" where
  "roundNat m =
     (if m \<le> 2 ^ 53 then m
      else
        (let e = bitLength m - 53; q = m div 2 ^ e; r = m mod 2 ^ e
         in (if 2 * r > 2 ^ e \<or> (2 * r = 2 ^ e \<and> odd q) then q + 1 else q) * 2 ^ e))"

text \<open>
  The double nearest to a whole number. A magnitude that rounds to \<open>2^1024\<close> or more, that
  is, to a number of more than 1024 binary digits, becomes an infinity.
\<close>

definition toDouble :: "int \<Rightarrow> jsNumber" where
  "toDouble n =
     (let m = roundNat (nat \<bar>n\<bar>)
      in if bitLength m > 1024 then Other else Whole (if n < 0 then - int m else int m))"

text \<open>
  \<^verbatim>\<open>a + b\<close>: the sum of two doubles is the double nearest to the exact sum; for two whole
  numbers the exact sum is whole.
\<close>

fun jsAdd :: "jsNumber \<Rightarrow> jsNumber \<Rightarrow> jsNumber" where
  "jsAdd (Whole a) (Whole b) = toDouble (a + b)"
| "jsAdd x y = Other"

text \<open>
  \<^verbatim>\<open>Math.round((amount / totalCount) * 100)\<close> for whole numbers \<open>0 \<le> amount\<close> and
  \<open>1 \<le> totalCount\<close> below \<open>2^53\<close>, step by step as the doubles are computed. The quotient is
  rounded to 53 significant digits: \<open>s\<close> is its significand and \<open>k\<close> the number of binary
  places, so that the quotient as a double is \<open>s / 2^k\<close>. The product with 100 is rounded
  again, to \<open>p / 2^k\<close>. \<^verbatim>\<open>Math.round\<close> then takes the whole number nearest to it, the larger
  one at a half.
\<close>

definition jsPercent :: "nat \<Rightarrow> nat \<Rightarrow> int" where
  "jsPercent amount totalCount =
     (if amount = 0 \<or> totalCount = 0 then 0
      else
        (let k0 = 52 + bitLength totalCount - bitLength amount;
             k = (if amount * 2 ^ k0 div totalCount < 2 ^ 52 then k0 + 1 else k0);
             scaled = amount * 2 ^ k;
             s0 = scaled div totalCount;
             rest = scaled mod totalCount;
             s = (if 2 * rest > totalCount \<or> (2 * rest = totalCount \<and> odd s0) then s0 + 1 else s0);
             p = roundNat (s * 100)
         in int ((2 * p + 2 ^ k) div 2 ^ (k + 1))))"

subsection \<open>Strings\<close>

text \<open>\<^verbatim>\<open>array.join(sep)\<close> on an array of strings.\<close>

fun join :: "string \<Rightarrow> string list \<Rightarrow> string" where
  "join sep [] = []"
| "join sep [x] = x"
| "join sep (x # y # ys) = x @ sep @ join sep (y # ys)"

section \<open>Chunker: \<^verbatim>\<open>estimateTokens\<close> and \<^verbatim>\<open>createOptimizedChunks\<close> (browser-ai-integration.js)\<close>

text \<open>\<^verbatim>\<open>Math.ceil(text.length / 4)\<close>.\<close>

definition estimateTokens :: "string \<Rightarrow> nat" where
  "estimateTokens text = (length text + 3) div 4"

definition MAX_TOKENS_PER_CHUNK :: nat where
  "MAX_TOKENS_PER_CHUNK = 750"

definition MAX_CHARS_PER_CHUNK :: nat where
  "MAX_CHARS_PER_CHUNK = MAX_TOKENS_PER_CHUNK * 4"

text \<open>The separator \<^verbatim>\<open>'\n---\n'\<close> (five code units).\<close>

definition separator :: string where
  "separator = [CHR 0x0A, CHR ''-'', CHR ''-'', CHR ''-'', CHR 0x0A]"

text \<open>
  The body of the \<^verbatim>\<open>for\<close> loop of \<^verbatim>\<open>createOptimizedChunks\<close>, as a recursion over the
  reviews still to be read. The state is the three variables of the source:
  \<^verbatim>\<open>chunks\<close>, \<^verbatim>\<open>currentChunk\<close> and \<^verbatim>\<open>currentChunkSize\<close>. \<^verbatim>\<open>currentChunk.slice(-chunkOverlap)\<close>
  is evaluated only when \<^verbatim>\<open>currentChunk.length > chunkOverlap > 0\<close>, where it is the last
  \<^verbatim>\<open>chunkOverlap\<close> elements. The equation for the empty list is the code after the loop.
\<close>

fun chunkLoop :: "nat \<Rightarrow> string list \<Rightarrow> string list list \<Rightarrow> string list \<Rightarrow> nat \<Rightarrow> string list list" where
  "chunkLoop chunkOverlap [] chunks currentChunk currentChunkSize =
     (if length currentChunk > 0 then chunks @ [currentChunk] else chunks)"
| "chunkLoop chunkOverlap (review # rest) chunks currentChunk currentChunkSize =
     (let reviewLength = length review in
      if currentChunkSize + reviewLength + length separator > MAX_CHARS_PER_CHUNK
           \<and> length currentChunk > 0
      then
        (if chunkOverlap > 0 \<and> length currentChunk > chunkOverlap
         then
           (let overlapReviews = drop (length currentChunk - chunkOverlap) currentChunk;
                overlapSize = foldl (\<lambda>sum r. sum + length r + length separator) 0 overlapReviews
            in chunkLoop chunkOverlap rest (chunks @ [currentChunk])
                 (overlapReviews @ [review]) (overlapSize + reviewLength + length separator))
         else chunkLoop chunkOverlap rest (chunks @ [currentChunk])
                 [review] (0 + reviewLength + length separator))
      else chunkLoop chunkOverlap rest chunks
                 (currentChunk @ [review]) (currentChunkSize + reviewLength + length separator))"

definition createOptimizedChunks :: "string list \<Rightarrow> nat \<Rightarrow> string list list" where
  "createOptimizedChunks reviews chunkOverlap = chunkLoop chunkOverlap reviews [] [] 0"

text \<open>
  The estimated token count of a chunk as \<^verbatim>\<open>analyzeReviews\<close> computes it before each call of
  the summarizer: \<^verbatim>\<open>estimateTokens(chunk.join('\n---\n'))\<close>.
\<close>

definition chunkTokens :: "string list \<Rightarrow> nat" where
  "chunkTokens chunk = estimateTokens (join separator chunk)"

text \<open>What \<^verbatim>\<open>currentChunkSize\<close> holds for a given \<^verbatim>\<open>currentChunk\<close>.\<close>

definition chunkChars :: "string list \<Rightarrow> nat" where
  "chunkChars chunk = sum_list (map (\<lambda>r. length r + length separator) chunk)"

text \<open>
  A chunk respects the ceiling, or it is a single review of the input that alone exceeds it.
\<close>

definition okChunk :: "string set \<Rightarrow> string list \<Rightarrow> bool" where
  "okChunk S chunk \<longleftrightarrow>
     chunkTokens chunk \<le> MAX_TOKENS_PER_CHUNK
     \<or> (\<exists>r\<in>S. chunk = [r] \<and> MAX_TOKENS_PER_CHUNK < estimateTokens r)"

section \<open>Merger: \<^verbatim>\<open>mergeKeywordAnalysis\<close> (browser-ai-integration.js)\<close>

text \<open>
  Errors of the source are values: \<^verbatim>\<open>new Error(message)\<close> and the \<^verbatim>\<open>TypeError\<close> that the
  engine raises when a property of \<^verbatim>\<open>undefined\<close> is read.
\<close>

datatype jsError = Error string | TypeError string

definition pushOfUndefined :: jsError where
  "pushOfUndefined =
     TypeError (''Cannot read properties of undefined (reading '' @ [CHR 0x27] @ ''push'' @ [CHR 0x27] @ '')'')"

text \<open>
  One element of a chunk's \<^verbatim>\<open>keyword_analysis\<close> array, as parsed from the model's JSON
  answer. A field that is absent (or \<^verbatim>\<open>null\<close>) is \<^const>\<open>None\<close>; an array that is present,
  even an empty one, is truthy in JavaScript. The schema asks for numbers, not for whole
  numbers, so a count is any \<^typ>\<open>jsNumber\<close>.
\<close>

record keywordItem =
  keyword :: string
  positive :: "jsNumber option"
  negative :: "jsNumber option"
  total_mentions :: "jsNumber option"
  positive_snippets :: "string list option"
  negative_snippets :: "string list option"

text \<open>One entry of the \<^verbatim>\<open>merged\<close> object and of the returned array.\<close>

record mergedEntry =
  m_keyword :: string
  m_positive :: jsNumber
  m_negative :: jsNumber
  m_total_mentions :: jsNumber
  m_positive_snippets :: "string list"
  m_negative_snippets :: "string list"

definition requiredAspects :: "string list" where
  "requiredAspects =
     [''Cleanliness'', ''Location'', ''HostCommunication'', ''ValueForMoney'',
      ''AccuracyOfListing'', ''CheckInProcess'', ''NoiseLevels'', ''Comfort'', ''Amenities'']"

text \<open>
  \<^verbatim>\<open>merged\<close> is created as the object literal \<^verbatim>\<open>{}\<close>, so \<^verbatim>\<open>merged[key]\<close> reads the object's
  own properties first and then those of \<^verbatim>\<open>Object.prototype\<close>. The names below are the
  properties of \<^verbatim>\<open>Object.prototype\<close>; each of them is a function or an object, hence
  truthy, and none of them has a \<^verbatim>\<open>positive_snippets\<close> or \<^verbatim>\<open>negative_snippets\<close> property.
\<close>

definition objectPrototypeKeys :: "string list" where
  "objectPrototypeKeys =
     [''constructor'', ''__defineGetter__'', ''__defineSetter__'', ''hasOwnProperty'',
      ''__lookupGetter__'', ''__lookupSetter__'', ''isPrototypeOf'', ''propertyIsEnumerable'',
      ''toString'', ''valueOf'', ''__proto__'', ''toLocaleString'']"

datatype 'a property = Own 'a | Inherited | Undefined

definition getProperty :: "(string \<rightharpoonup> 'a) \<Rightarrow> string \<Rightarrow> 'a property" where
  "getProperty obj key =
     (case obj key of
        Some v \<Rightarrow> Own v
      | None \<Rightarrow> if key \<in> set objectPrototypeKeys then Inherited else Undefined)"

text \<open>
  \<^verbatim>\<open>x || 0\<close> for a number that may be absent; \<^verbatim>\<open>0 || 0\<close> is \<open>0\<close> as well, and a number
  read from JSON that is not zero is truthy.
\<close>

definition orZero :: "jsNumber option \<Rightarrow> jsNumber" where
  "orZero x = (case x of None \<Rightarrow> Whole 0 | Some n \<Rightarrow> n)"

definition zeroEntry :: "string \<Rightarrow> mergedEntry" where
  "zeroEntry aspect =
     \<lparr>m_keyword = aspect, m_positive = Whole 0, m_negative = Whole 0,
      m_total_mentions = Whole 0,
      m_positive_snippets = [], m_negative_snippets = []\<rparr>"

definition initMerged :: "string \<rightharpoonup> mergedEntry" where
  "initMerged = fold (\<lambda>aspect merged. merged(aspect \<mapsto> zeroEntry aspect)) requiredAspects Map.empty"

text \<open>
  The body of the inner \<^verbatim>\<open>forEach\<close>; the three \<^verbatim>\<open>+=\<close> add doubles
  (\<^const>\<open>jsAdd\<close>). When \<^verbatim>\<open>merged[item.keyword]\<close> is an inherited
  property, the three \<^verbatim>\<open>+=\<close> only write to that foreign object, and the first
  \<^verbatim>\<open>.push\<close> reads \<^verbatim>\<open>undefined.push\<close>, which raises the \<^verbatim>\<open>TypeError\<close>.
\<close>

definition mergeItem :: "(string \<rightharpoonup> mergedEntry) \<Rightarrow> keywordItem \<Rightarrow> jsError + (string \<rightharpoonup> mergedEntry)" where
  "mergeItem merged item =
     (case getProperty merged (keyword item) of
        Undefined \<Rightarrow> Inr merged
      | Inherited \<Rightarrow>
          (if positive_snippets item \<noteq> None \<or> negative_snippets item \<noteq> None
           then Inl pushOfUndefined else Inr merged)
      | Own e \<Rightarrow>
          Inr (merged(keyword item \<mapsto>
            e\<lparr>m_positive := jsAdd (m_positive e) (orZero (positive item)),
              m_negative := jsAdd (m_negative e) (orZero (negative item)),
              m_total_mentions := jsAdd (m_total_mentions e) (orZero (total_mentions item)),
              m_positive_snippets := m_positive_snippets e @
                 (case positive_snippets item of None \<Rightarrow> [] | Some xs \<Rightarrow> xs),
              m_negative_snippets := m_negative_snippets e @
                 (case negative_snippets item of None \<Rightarrow> [] | Some xs \<Rightarrow> xs)\<rparr>)))"

fun mergeItems :: "(string \<rightharpoonup> mergedEntry) \<Rightarrow> keywordItem list \<Rightarrow> jsError + (string \<rightharpoonup> mergedEntry)" where
  "mergeItems merged [] = Inr merged"
| "mergeItems merged (item # items) =
     (case mergeItem merged item of
        Inl e \<Rightarrow> Inl e
      | Inr merged' \<Rightarrow> mergeItems merged' items)"

text \<open>
  The outer \<^verbatim>\<open>forEach\<close>. A chunk whose \<^verbatim>\<open>keyword_analysis\<close> is not an array is
  \<^const>\<open>None\<close> and is skipped.
\<close>

fun mergeChunks :: "(string \<rightharpoonup> mergedEntry) \<Rightarrow> keywordItem list option list \<Rightarrow> jsError + (string \<rightharpoonup> mergedEntry)" where
  "mergeChunks merged [] = Inr merged"
| "mergeChunks merged (None # chunks) = mergeChunks merged chunks"
| "mergeChunks merged (Some chunkKeywords # chunks) =
     (case mergeItems merged chunkKeywords of
        Inl e \<Rightarrow> Inl e
      | Inr merged' \<Rightarrow> mergeChunks merged' chunks)"

text \<open>The final \<^verbatim>\<open>requiredAspects.map\<close>, with \<^verbatim>\<open>slice(0, 10)\<close> on both snippet lists.\<close>

fun limitSnippets :: "(string \<rightharpoonup> mergedEntry) \<Rightarrow> string list \<Rightarrow> jsError + mergedEntry list" where
  "limitSnippets merged [] = Inr []"
| "limitSnippets merged (aspect # aspects) =
     (case merged aspect of
        None \<Rightarrow> Inl (TypeError ''Cannot read properties of undefined'')
      | Some data \<Rightarrow>
          (case limitSnippets merged aspects of
             Inl e \<Rightarrow> Inl e
           | Inr result \<Rightarrow>
               Inr (data\<lparr>m_positive_snippets := take 10 (m_positive_snippets data),
                         m_negative_snippets := take 10 (m_negative_snippets data)\<rparr> # result)))"

definition mergeKeywordAnalysis :: "keywordItem list option list \<Rightarrow> jsError + mergedEntry list" where
  "mergeKeywordAnalysis chunkKeywordArrays =
     (case mergeChunks initMerged chunkKeywordArrays of
        Inl e \<Rightarrow> Inl e
      | Inr merged \<Rightarrow> limitSnippets merged requiredAspects)"

text \<open>The sums of one returned entry, with the aspect they belong to.\<close>

definition aspectCounts :: "mergedEntry \<Rightarrow> string \<times> jsNumber \<times> jsNumber \<times> jsNumber" where
  "aspectCounts e = (m_keyword e, m_positive e, m_negative e, m_total_mentions e)"

text \<open>
  An element on which \<^const>\<open>mergeItem\<close> raises: its keyword is no aspect, names a property
  of \<^verbatim>\<open>Object.prototype\<close>, and it carries a snippet array.
\<close>

definition throwsItem :: "keywordItem \<Rightarrow> bool" where
  "throwsItem item \<longleftrightarrow>
     keyword item \<notin> set requiredAspects \<and> keyword item \<in> set objectPrototypeKeys
     \<and> (positive_snippets item \<noteq> None \<or> negative_snippets item \<noteq> None)"

definition throwsChunk :: "keywordItem list option \<Rightarrow> bool" where
  "throwsChunk chunk = (case chunk of None \<Rightarrow> False | Some items \<Rightarrow> \<exists>item\<in>set items. throwsItem item)"

text \<open>Auxiliary notions for the proofs about the merger.\<close>

text \<open>A count that is absent or a whole number, and its value (absent counts as \<open>0\<close>).\<close>

definition wholeCount :: "jsNumber option \<Rightarrow> bool" where
  "wholeCount x = (case x of Some Other \<Rightarrow> False | Some (Whole v) \<Rightarrow> True | None \<Rightarrow> True)"

definition countValue :: "jsNumber option \<Rightarrow> int" where
  "countValue x = (case x of Some (Whole v) \<Rightarrow> v | Some Other \<Rightarrow> 0 | None \<Rightarrow> 0)"

text \<open>What one element adds to a count of an aspect (\<open>field\<close> selects the count).\<close>

definition itemCount :: "(keywordItem \<Rightarrow> jsNumber option) \<Rightarrow> string \<Rightarrow> keywordItem \<Rightarrow> int" where
  "itemCount field aspect item = (if keyword item = aspect then countValue (field item) else 0)"

text \<open>What one chunk adds to a count of an aspect, and the magnitudes of it added up.\<close>

definition chunkCount :: "(keywordItem \<Rightarrow> jsNumber option) \<Rightarrow> string \<Rightarrow> keywordItem list option \<Rightarrow> int" where
  "chunkCount field aspect chunk =
     (case chunk of
        None \<Rightarrow> 0
      | Some items \<Rightarrow> sum_list (map (itemCount field aspect) items))"

definition chunkMagnitude :: "(keywordItem \<Rightarrow> jsNumber option) \<Rightarrow> string \<Rightarrow> keywordItem list option \<Rightarrow> int" where
  "chunkMagnitude field aspect chunk =
     (case chunk of
        None \<Rightarrow> 0
      | Some items \<Rightarrow> sum_list (map (\<lambda>item. \<bar>itemCount field aspect item\<bar>) items))"

text \<open>The three counts of an element are whole numbers where it names an aspect.\<close>

definition wholeItem :: "keywordItem \<Rightarrow> bool" where
  "wholeItem item \<longleftrightarrow>
     (keyword item \<in> set requiredAspects \<longrightarrow>
        wholeCount (positive item) \<and> wholeCount (negative item)
        \<and> wholeCount (total_mentions item))"

definition wholeChunk :: "keywordItem list option \<Rightarrow> bool" where
  "wholeChunk chunk = (case chunk of None \<Rightarrow> True | Some items \<Rightarrow> \<forall>item\<in>set items. wholeItem item)"

text \<open>
  The condition under which every addition of the merger is exact, in whatever order the
  chunks come: the counts given for the aspects are whole numbers, and for each aspect and
  each of the three counts their magnitudes add up to \<open>2^53\<close> at most.
\<close>

definition exactCounts :: "keywordItem list option list \<Rightarrow> bool" where
  "exactCounts chunks \<longleftrightarrow>
     (\<forall>chunk\<in>set chunks. wholeChunk chunk)
     \<and> (\<forall>a\<in>set requiredAspects.
           (\<Sum>c\<leftarrow>chunks. chunkMagnitude positive a c) \<le> 2 ^ 53
         \<and> (\<Sum>c\<leftarrow>chunks. chunkMagnitude negative a c) \<le> 2 ^ 53
         \<and> (\<Sum>c\<leftarrow>chunks. chunkMagnitude total_mentions a c) \<le> 2 ^ 53)"

text \<open>
  The invariant of \<^verbatim>\<open>merged\<close>: its own keys are the nine aspects, and each entry carries
  its key.
\<close>

definition mergedInv :: "(string \<rightharpoonup> mergedEntry) \<Rightarrow> bool" where
  "mergedInv merged \<longleftrightarrow>
     dom merged = set requiredAspects \<and> (\<forall>a e. merged a = Some e \<longrightarrow> m_keyword e = a)"

text \<open>The three counts of every aspect in \<open>merged\<close> are the whole numbers \<open>p\<close>, \<open>n\<close> and \<open>t\<close>.\<close>

definition holdsCounts ::
  "(string \<rightharpoonup> mergedEntry) \<Rightarrow> (string \<Rightarrow> int) \<Rightarrow> (string \<Rightarrow> int) \<Rightarrow> (string \<Rightarrow> int) \<Rightarrow> bool" where
  "holdsCounts merged p n t \<longleftrightarrow>
     (\<forall>a\<in>set requiredAspects.
        m_positive (the (merged a)) = Whole (p a)
      \<and> m_negative (the (merged a)) = Whole (n a)
      \<and> m_total_mentions (the (merged a)) = Whole (t a))"

text \<open>
  The exact sums: for each of the nine aspects, in the order of \<^const>\<open>requiredAspects\<close>, the
  three counts added up over all chunks.
\<close>

definition mergedCounts ::
  "keywordItem list option list \<Rightarrow> (string \<times> jsNumber \<times> jsNumber \<times> jsNumber) list" where
  "mergedCounts chunks =
     map (\<lambda>a. (a, Whole (\<Sum>c\<leftarrow>chunks. chunkCount positive a c),
                   Whole (\<Sum>c\<leftarrow>chunks. chunkCount negative a c),
                   Whole (\<Sum>c\<leftarrow>chunks. chunkCount total_mentions a c))) requiredAspects"

text \<open>
  Three chunk results for the example of the specification: chunk A reports Cleanliness
  \<open>+2/-0\<close>, chunk B reports Cleanliness \<open>+1/-1\<close>, chunk C does not mention Cleanliness.
\<close>

definition chunkA :: "keywordItem list option" where
  "chunkA = Some [\<lparr>keyword = ''Cleanliness'', positive = Some (Whole 2), negative = Some (Whole 0),
      total_mentions = Some (Whole 2), positive_snippets = Some [''Spotless''],
      negative_snippets = Some []\<rparr>]"

definition chunkB :: "keywordItem list option" where
  "chunkB = Some [\<lparr>keyword = ''Cleanliness'', positive = Some (Whole 1), negative = Some (Whole 1),
      total_mentions = Some (Whole 2), positive_snippets = Some [''Very clean''],
      negative_snippets = Some [''Dusty shelves'']\<rparr>]"

definition chunkC :: "keywordItem list option" where
  "chunkC = Some [\<lparr>keyword = ''Location'', positive = Some (Whole 1), negative = None,
      total_mentions = Some (Whole 1), positive_snippets = None, negative_snippets = None\<rparr>]"

text \<open>A chunk that reports \<open>n\<close> positive mentions of Cleanliness and nothing else.\<close>

definition cleanChunk :: "int \<Rightarrow> keywordItem list option" where
  "cleanChunk n = Some [\<lparr>keyword = ''Cleanliness'', positive = Some (Whole n), negative = None,
      total_mentions = None, positive_snippets = None, negative_snippets = None\<rparr>]"

text \<open>The \<^verbatim>\<open>positive\<close> count that a call returns for Cleanliness, the first entry.\<close>

definition cleanlinessPositive :: "jsError + mergedEntry list \<Rightarrow> jsNumber option" where
  "cleanlinessPositive r =
     (case r of Inl error \<Rightarrow> None | Inr [] \<Rightarrow> None | Inr (e # es) \<Rightarrow> Some (m_positive e))"

section \<open>Collector: \<^verbatim>\<open>collectReviewsWithScrolling\<close> (content script)\<close>

text \<open>
  A review object as \<^verbatim>\<open>extractReviewsFromDOM\<close> builds it. Every property is set only under
  a condition, so each may be absent (\<^const>\<open>None\<close>). The property \<^verbatim>\<open>text\<close> of the source is the
  field \<open>reviewText\<close> here (\<open>text\<close> is a keyword of Isabelle).
\<close>

record review =
  name :: "string option"
  location :: "string option"
  date :: "string option"
  stayDetails :: "string option"
  reviewText :: "string option"
  rating :: "jsNumber option"

text \<open>JavaScript truthiness of a property that is a string or absent.\<close>

definition truthy :: "string option \<Rightarrow> bool" where
  "truthy s = (case s of None \<Rightarrow> False | Some t \<Rightarrow> t \<noteq> [])"

text \<open>
  The identity of a record: \<^verbatim>\<open>existing.name === review.name && existing.text === review.text\<close>.
  Strict equality on strings and \<^verbatim>\<open>undefined\<close> is equality of the optional strings.
\<close>

definition reviewKey :: "review \<Rightarrow> string option \<times> string option" where
  "reviewKey r = (name r, reviewText r)"

text \<open>
  The merge of one extraction pass into \<^verbatim>\<open>allReviews\<close> in the main loop: the
  \<^verbatim>\<open>currentReviews.forEach\<close> with its \<^verbatim>\<open>allReviews.some\<close> test; \<^verbatim>\<open>push\<close> appends.
\<close>

fun mergeNew :: "review list \<Rightarrow> review list \<Rightarrow> review list" where
  "mergeNew allReviews [] = allReviews"
| "mergeNew allReviews (review # rest) =
     (let isDuplicate = list_ex (\<lambda>existing. name existing = name review
                                   \<and> reviewText existing = reviewText review) allReviews
      in if \<not> isDuplicate \<and> truthy (name review) \<and> truthy (reviewText review)
         then mergeNew (allReviews @ [review]) rest
         else mergeNew allReviews rest)"

text \<open>The merge of the final push, which also stops pushing at 95 records.\<close>

fun mergeFinal :: "review list \<Rightarrow> review list \<Rightarrow> review list" where
  "mergeFinal allReviews [] = allReviews"
| "mergeFinal allReviews (review # rest) =
     (let isDuplicate = list_ex (\<lambda>existing. name existing = name review
                                   \<and> reviewText existing = reviewText review) allReviews
      in if \<not> isDuplicate \<and> truthy (name review) \<and> truthy (reviewText review)
            \<and> length allReviews < 95
         then mergeFinal (allReviews @ [review]) rest
         else mergeFinal allReviews rest)"

text \<open>
  The page is outside the program: the collector only reads it. It is modelled by two
  arbitrary functions, so that a statement about every \<open>doc\<close> is a statement about every
  behaviour of the page: \<open>extraction doc n\<close> is what the \<open>n\<close>-th call of
  \<^verbatim>\<open>extractReviewsFromDOM\<close> returns (counted from 0), and \<open>endOfReviews doc n c\<close> tells whether,
  in the \<open>n\<close>-th iteration with \<open>c\<close> records collected, the page shows an end-of-reviews
  marker or one of the \<^verbatim>\<open>endPhrases\<close>. Scrolling, clicking and waiting change the page
  only, that is, what these functions return later.
\<close>

record page =
  extraction :: "nat \<Rightarrow> review list"
  endOfReviews :: "nat \<Rightarrow> nat \<Rightarrow> bool"

text \<open>
  The variables of \<^verbatim>\<open>collectReviewsWithScrolling\<close>, and three counters that the source does
  not have: \<open>passes\<close> counts the calls of \<^verbatim>\<open>extractReviewsFromDOM\<close>, \<open>finalPasses\<close> the
  iterations of the final-push loop, and \<open>history\<close> records \<^verbatim>\<open>allReviews\<close> after every merge,
  oldest first.
\<close>

record collector =
  allReviews :: "review list"
  attempts :: nat
  consecutiveNoNewReviews :: nat
  passes :: nat
  finalPasses :: nat
  history :: "review list list"

definition maxAttempts :: nat where
  "maxAttempts = 30"

definition initCollector :: collector where
  "initCollector = \<lparr>allReviews = [], attempts = 0, consecutiveNoNewReviews = 0,
     passes = 0, finalPasses = 0, history = []\<rparr>"

text \<open>How an iteration of a loop ends: it falls through to the next test of the guard, or it breaks.\<close>

datatype 'a flow = Continue 'a | Break 'a

text \<open>
  One iteration of the \<^verbatim>\<open>while\<close> loop. After the end-of-reviews test, the rest of the body
  (the scrolling strategies and the waits) has no effect on the variables.
\<close>

definition loopBody :: "page \<Rightarrow> collector \<Rightarrow> collector flow" where
  "loopBody doc s =
     (let attempts' = attempts s + 1;
          previousCount = length (allReviews s);
          currentReviews = extraction doc (passes s);
          allReviews' = mergeNew (allReviews s) currentReviews;
          s1 = s\<lparr>allReviews := allReviews', attempts := attempts', passes := passes s + 1,
                 history := history s @ [allReviews']\<rparr>
      in if length allReviews' \<ge> 100 then Break s1
         else if length allReviews' = previousCount then
           (let s2 = s1\<lparr>consecutiveNoNewReviews := consecutiveNoNewReviews s + 1\<rparr>
            in if consecutiveNoNewReviews s2 \<ge> 5
                  \<and> endOfReviews doc attempts' (length allReviews')
               then Break s2 else Continue s2)
         else Continue (s1\<lparr>consecutiveNoNewReviews := 0\<rparr>))"

lemma loopBody_attempts:
  "loopBody doc s = Continue s' \<Longrightarrow> attempts s' = attempts s + 1"
  by (auto simp: loopBody_def Let_def split: if_splits)

function mainLoop :: "page \<Rightarrow> collector \<Rightarrow> collector" where
  "mainLoop doc s =
     (if length (allReviews s) < 100 \<and> attempts s < maxAttempts
           \<and> consecutiveNoNewReviews s < 10
      then (case loopBody doc s of
              Continue s' \<Rightarrow> mainLoop doc s'
            | Break s' \<Rightarrow> s')
      else s)"
  by pat_completeness auto
termination
  by (relation "measure (\<lambda>(doc, s). maxAttempts - attempts s)")
     (auto dest: loopBody_attempts)

declare mainLoop.simps [simp del]

text \<open>
  One iteration of the final-push loop, for the value \<open>finalAttempt\<close> of the loop variable.
  \<^verbatim>\<open>reviewsBeforePush\<close> is declared inside the iteration and read in the same iteration.
\<close>

definition finalBody :: "page \<Rightarrow> collector \<Rightarrow> nat \<Rightarrow> collector flow" where
  "finalBody doc s finalAttempt =
     (let finalReviews = extraction doc (passes s);
          allReviews' = mergeFinal (allReviews s) finalReviews;
          s1 = s\<lparr>allReviews := allReviews', passes := passes s + 1,
                 finalPasses := finalPasses s + 1, history := history s @ [allReviews']\<rparr>
      in if finalAttempt \<ge> 3 then
           (let reviewsBeforePush = length allReviews'
            in if finalAttempt = 3 then Continue s1
               else if finalAttempt = 6 \<and> length allReviews' = reviewsBeforePush then Break s1
               else Continue s1)
         else Continue s1)"

function finalLoop :: "page \<Rightarrow> collector \<Rightarrow> nat \<Rightarrow> collector" where
  "finalLoop doc s finalAttempt =
     (if finalAttempt < 8 \<and> length (allReviews s) < 95
      then (case finalBody doc s finalAttempt of
              Continue s' \<Rightarrow> finalLoop doc s' (finalAttempt + 1)
            | Break s' \<Rightarrow> s')
      else s)"
  by pat_completeness auto
termination
  by (relation "measure (\<lambda>(doc, s, finalAttempt). 8 - finalAttempt)") auto

declare finalLoop.simps [simp del]

text \<open>
  The whole run up to the \<^verbatim>\<open>return\<close>: the main loop, then the final push when between 50
  and 94 records were collected. What follows in the source (logging, the button status,
  closing the modal) does not change \<^verbatim>\<open>allReviews\<close>.
\<close>

definition runCollector :: "page \<Rightarrow> collector" where
  "runCollector doc =
     (let s = mainLoop doc initCollector
      in if length (allReviews s) \<ge> 50 \<and> length (allReviews s) < 95
         then finalLoop doc s 0 else s)"

text \<open>\<^verbatim>\<open>return allReviews.slice(0, 100)\<close>.\<close>

definition collectReviewsWithScrolling :: "page \<Rightarrow> review list" where
  "collectReviewsWithScrolling doc = take 100 (allReviews (runCollector doc))"

text \<open>
  The invariant of a collection run: no two records of \<^verbatim>\<open>allReviews\<close> share name and text,
  every earlier state of \<^verbatim>\<open>allReviews\<close> is such a list and an initial segment of the present
  one, and the earlier states grow in the order of time.
\<close>

definition collectorInv :: "collector \<Rightarrow> bool" where
  "collectorInv s \<longleftrightarrow>
     distinct (map reviewKey (allReviews s))
     \<and> (\<forall>snapshot\<in>set (history s).
           distinct (map reviewKey snapshot) \<and> prefix snapshot (allReviews s))
     \<and> sorted_wrt prefix (history s)"

text \<open>A page on which no extraction pass ever finds a record, and no end marker shows.\<close>

definition silentPage :: page where
  "silentPage = \<lparr>extraction = (\<lambda>n. []), endOfReviews = (\<lambda>n c. False)\<rparr>"

text \<open>
  A page that shows the same five records at every pass, two of them exact duplicates of
  earlier ones, and an end-of-reviews marker.
\<close>

definition mkReview :: "string \<Rightarrow> string \<Rightarrow> review" where
  "mkReview n t = \<lparr>name = Some n, location = None, date = None, stayDetails = None,
      reviewText = Some t, rating = Some (Whole 5)\<rparr>"

definition examplePage :: page where
  "examplePage =
     \<lparr>extraction = (\<lambda>n. [mkReview ''Ana'' ''Great place'', mkReview ''Ben'' ''Too noisy'',
                           mkReview ''Ana'' ''Great place'', mkReview ''Ana'' ''Too noisy'',
                           mkReview ''Ben'' ''Too noisy'']),
      endOfReviews = (\<lambda>n c. True)\<rparr>"

section \<open>Extractor: \<^verbatim>\<open>extractReviewsFromDOM\<close> (content script)\<close>

subsection \<open>String functions of JavaScript\<close>

text \<open>
  White space as \<^verbatim>\<open>trim()\<close> and the class \<^verbatim>\<open>\s\<close> of regular expressions see it, among the
  code units below 256: tab, line feed, vertical tab, form feed, carriage return, space and
  no-break space. \<^verbatim>\<open>\d\<close> is an ASCII digit.
\<close>

definition isSpace :: "char \<Rightarrow> bool" where
  "isSpace c \<longleftrightarrow> c \<in> set [CHR 0x09, CHR 0x0A, CHR 0x0B, CHR 0x0C, CHR 0x0D, CHR 0x20, CHR 0xA0]"

definition isDigit :: "char \<Rightarrow> bool" where
  "isDigit c \<longleftrightarrow> c \<in> set ''0123456789''"

definition isLetter :: "char \<Rightarrow> bool" where
  "isLetter c \<longleftrightarrow> c \<in> set ''ABCDEFGHIJKLMNOPQRSTUVWXYZabcdefghijklmnopqrstuvwxyz''"

definition trim :: "string \<Rightarrow> string" where
  "trim s = rev (dropWhile isSpace (rev (dropWhile isSpace s)))"

text \<open>\<^verbatim>\<open>s.includes(sub)\<close>.\<close>

fun jsIncludes :: "string \<Rightarrow> string \<Rightarrow> bool" where
  "jsIncludes [] sub = (sub = [])"
| "jsIncludes (c # s) sub = (prefix sub (c # s) \<or> jsIncludes s sub)"

text \<open>The number that a string of decimal digits writes.\<close>

definition digitsValue :: "string \<Rightarrow> nat" where
  "digitsValue digits = foldl (\<lambda>n c. 10 * n + (of_char c - 48)) 0 digits"

text \<open>
  \<^verbatim>\<open>parseInt\<close> on a string of decimal digits: the double nearest to the number written.
  With more than 20 significant digits, that is from \<open>10^20\<close> up, the language leaves to the
  implementation which digits after the 20th it reads as zeros; the result is then some
  number of at least \<open>10^20\<close> (or \<^verbatim>\<open>Infinity\<close>), which the model does not follow.
\<close>

definition parseInt :: "string \<Rightarrow> jsNumber" where
  "parseInt digits =
     (if digitsValue digits < 10 ^ 20 then toDouble (int (digitsValue digits)) else Other)"

text \<open>
  \<^verbatim>\<open>text.match(/Rating,\s*(\d+)\s*star/)\<close>: the first capture group of the leftmost match.
  \<open>ratingAt\<close> matches at the start of the string. Both \<^verbatim>\<open>\s*\<close> and \<^verbatim>\<open>\d+\<close> are greedy, and
  giving back a character never helps, since the character given back (white space, a digit)
  cannot start what follows in the pattern; so the match at a position is unique.
\<close>

definition ratingAt :: "string \<Rightarrow> string option" where
  "ratingAt s =
     (if prefix ''Rating,'' s then
        (let afterComma = dropWhile isSpace (drop 7 s);
             digits = takeWhile isDigit afterComma;
             afterDigits = dropWhile isSpace (dropWhile isDigit afterComma)
         in if digits \<noteq> [] \<and> prefix ''star'' afterDigits then Some digits else None)
      else None)"

fun matchRating :: "string \<Rightarrow> string option" where
  "matchRating [] = ratingAt []"
| "matchRating (c # s) =
     (case ratingAt (c # s) of Some digits \<Rightarrow> Some digits | None \<Rightarrow> matchRating s)"

text \<open>
  \<^verbatim>\<open>dateText.match(/([A-Za-z]+ \d{4})/)\<close>: a run of letters, one space and four digits. The
  leftmost match starts at the beginning of a run of letters and takes the whole run.
\<close>

definition monthYearAt :: "string \<Rightarrow> string option" where
  "monthYearAt s =
     (let letters = takeWhile isLetter s; rest = dropWhile isLetter s
      in if letters \<noteq> [] \<and> prefix '' '' rest \<and> length (drop 1 rest) \<ge> 4
            \<and> list_all isDigit (take 4 (drop 1 rest))
         then Some (letters @ '' '' @ take 4 (drop 1 rest)) else None)"

fun matchMonthYear :: "string \<Rightarrow> string option" where
  "matchMonthYear [] = monthYearAt []"
| "matchMonthYear (c # s) =
     (case monthYearAt (c # s) of Some m \<Rightarrow> Some m | None \<Rightarrow> matchMonthYear s)"

subsection \<open>What the extractor reads of the page\<close>

text \<open>
  An element with the attribute \<^verbatim>\<open>data-review-id\<close>, reduced to the results of the queries
  that the extractor makes on it. A field of type \<^typ>\<open>string option\<close> is the
  \<^verbatim>\<open>textContent\<close> of the first element that \<^verbatim>\<open>querySelector\<close> finds for the selector,
  \<^const>\<open>None\<close> when there is none; \<open>spans\<close> holds the \<^verbatim>\<open>textContent\<close> of every \<^verbatim>\<open>span\<close> in
  document order, and \<open>starSvgs\<close> is the number of \<^verbatim>\<open>svg[viewBox="0 0 32 32"]\<close> elements.
  No relation between the fields is assumed.
\<close>

record reviewElement =
  h2LcpTarget :: "string option"
  h2 :: "string option"
  nameClass :: "string option"
  locationElement :: "string option"
  dateElement :: "string option"
  reviewSpan :: "string option"
  textClassSpan :: "string option"
  spans :: "string list"
  starSvgs :: nat

text \<open>An element found by one of the \<^verbatim>\<open>fallbackSelectors\<close>, reduced in the same way.\<close>

record fallbackElement =
  fbName :: "string option"
  fbDate :: "string option"
  fbText :: "string option"

record dom =
  reviewElements :: "reviewElement list"
  fallbackElements :: "fallbackElement list"

text \<open>
  \<^verbatim>\<open>if (el && el.textContent) review.field = el.textContent.trim()\<close>: the property is set
  when the element exists and its text is not empty; the trimmed text may be empty.
\<close>

definition trimmedContent :: "string option \<Rightarrow> string option" where
  "trimmedContent el =
     (case el of
        None \<Rightarrow> None
      | Some textContent \<Rightarrow> if textContent \<noteq> [] then Some (trim textContent) else None)"

text \<open>The first element found by a list of selectors tried in order.\<close>

fun firstFound :: "string option list \<Rightarrow> string option" where
  "firstFound [] = None"
| "firstFound (None # rest) = firstFound rest"
| "firstFound (Some el # rest) = Some el"

text \<open>
  The \<^verbatim>\<open>reduce\<close> over the spans with more than 20 characters after trimming: a later span
  replaces the longest so far only when it is strictly longer.
\<close>

definition longestSpan :: "string list \<Rightarrow> string option" where
  "longestSpan allSpans =
     (case filter (\<lambda>s. s \<noteq> [] \<and> length (trim s) > 20) allSpans of
        [] \<Rightarrow> None
      | first # others \<Rightarrow>
          Some (foldl (\<lambda>longest current. if length current > length longest then current else longest)
                  first others))"

definition elementName :: "reviewElement \<Rightarrow> string option" where
  "elementName element = trimmedContent (firstFound [h2LcpTarget element, h2 element, nameClass element])"

definition elementText :: "reviewElement \<Rightarrow> string option" where
  "elementText element =
     trimmedContent
       (case firstFound [reviewSpan element, textClassSpan element] of
          Some el \<Rightarrow> Some el
        | None \<Rightarrow> longestSpan (spans element))"

text \<open>\<^verbatim>\<open>review.text && review.text.length > 20\<close>.\<close>

definition longText :: "string option \<Rightarrow> bool" where
  "longText t = (case t of None \<Rightarrow> False | Some s \<Rightarrow> s \<noteq> [] \<and> length s > 20)"

text \<open>
  Method 1 of the rating: the loop over the spans, which stops at the first span whose text
  matches. The result is the value of \<^verbatim>\<open>starCount\<close> after the loop, \<open>0\<close> when no span
  matched.
\<close>

fun ratingFromText :: "string list \<Rightarrow> jsNumber" where
  "ratingFromText [] = Whole 0"
| "ratingFromText (text # rest) =
     (if text \<noteq> [] \<and> jsIncludes text ''Rating,'' \<and> jsIncludes text ''star''
      then (case matchRating text of
              Some digits \<Rightarrow> parseInt digits
            | None \<Rightarrow> ratingFromText rest)
      else ratingFromText rest)"

text \<open>
  The three methods in sequence, as the assignments to \<^verbatim>\<open>starCount\<close> of the source, and the
  final \<^verbatim>\<open>if (starCount > 0) review.rating = starCount\<close>. Here \<^const>\<open>Other\<close> can only come
  from \<^const>\<open>parseInt\<close>, a number of at least \<open>10^20\<close>: it is not \<open>0\<close> and it is greater
  than \<open>0\<close>.
\<close>

definition elementRating :: "reviewElement \<Rightarrow> jsNumber option" where
  "elementRating element =
     (let starCount1 = ratingFromText (spans element);
          starCount2 = (if starCount1 = Whole 0
                        then (if starSvgs element > 0 \<and> starSvgs element \<le> 5
                              then Whole (int (starSvgs element)) else starCount1)
                        else starCount1);
          starCount3 = (if starCount2 = Whole 0 \<and> longText (elementText element)
                        then Whole 5 else starCount2)
      in case starCount3 of
           Whole n \<Rightarrow> if n > 0 then Some (Whole n) else None
         | Other \<Rightarrow> Some Other)"

text \<open>The review object built for one element, before the test that keeps or drops it.\<close>

definition processReviewElement :: "reviewElement \<Rightarrow> review" where
  "processReviewElement element =
     (let dateText = trimmedContent (dateElement element)
      in \<lparr>name = elementName element,
          location = trimmedContent (locationElement element),
          date = (case dateText of None \<Rightarrow> None | Some d \<Rightarrow> matchMonthYear d),
          stayDetails = dateText,
          reviewText = elementText element,
          rating = elementRating element\<rparr>)"

text \<open>The \<^verbatim>\<open>reviewElements.forEach\<close> of the primary mode, with \<^verbatim>\<open>reviews\<close> as accumulator.\<close>

fun primaryLoop :: "review list \<Rightarrow> reviewElement list \<Rightarrow> review list" where
  "primaryLoop reviews [] = reviews"
| "primaryLoop reviews (element # rest) =
     (if length reviews \<ge> 100 then primaryLoop reviews rest
      else
        (let review = processReviewElement element
         in if length reviews < 100 then
              (if truthy (name review) \<and> truthy (reviewText review)
               then primaryLoop (reviews @ [review]) rest
               else if longText (reviewText review)
               then primaryLoop (reviews @ [review\<lparr>name := Some ''Anonymous''\<rparr>]) rest
               else primaryLoop reviews rest)
            else primaryLoop reviews rest))"

definition processFallbackElement :: "fallbackElement \<Rightarrow> review" where
  "processFallbackElement element =
     \<lparr>name = trimmedContent (fbName element),
      location = None,
      date = trimmedContent (fbDate element),
      stayDetails = None,
      reviewText = trimmedContent (fbText element),
      rating = None\<rparr>"

text \<open>The \<^verbatim>\<open>forEach\<close> of the fallback mode.\<close>

fun fallbackLoop :: "review list \<Rightarrow> fallbackElement list \<Rightarrow> review list" where
  "fallbackLoop reviews [] = reviews"
| "fallbackLoop reviews (element # rest) =
     (if length reviews \<ge> 100 then fallbackLoop reviews rest
      else
        (let review = processFallbackElement element
         in if truthy (name review) \<or> truthy (reviewText review)
            then fallbackLoop (reviews @ [review]) rest
            else fallbackLoop reviews rest))"

definition extractReviewsFromDOM :: "dom \<Rightarrow> review list" where
  "extractReviewsFromDOM d =
     (if length (reviewElements d) > 0
      then primaryLoop [] (reviewElements d)
      else fallbackLoop [] (fallbackElements d))"

text \<open>
  The textual cue of the specification: the digits \<open>N\<close> in the first span, in document
  order, that contains a text of the form \<^verbatim>\<open>Rating, N star\<close>.
\<close>

fun ratingCue :: "string list \<Rightarrow> string option" where
  "ratingCue [] = None"
| "ratingCue (text # rest) =
     (case matchRating text of
        Some digits \<Rightarrow> Some digits
      | None \<Rightarrow> ratingCue rest)"

text \<open>The second and third strategy of the cascade, as the specification words them.\<close>

definition ratingWithoutCue :: "reviewElement \<Rightarrow> jsNumber option" where
  "ratingWithoutCue element =
     (if 1 \<le> starSvgs element \<and> starSvgs element \<le> 5 then Some (Whole (int (starSvgs element)))
      else if longText (elementText element) then Some (Whole 5)
      else None)"

text \<open>Sample elements.\<close>

definition plainElement :: reviewElement where
  "plainElement = \<lparr>h2LcpTarget = None, h2 = None, nameClass = None, locationElement = None,
     dateElement = None, reviewSpan = None, textClassSpan = None, spans = [], starSvgs = 0\<rparr>"

definition namedElement :: reviewElement where
  "namedElement = plainElement\<lparr>h2 := Some '' Ana '', reviewSpan := Some ''Lovely flat''\<rparr>"

definition namelessElement :: reviewElement where
  "namelessElement = plainElement\<lparr>spans := [''We had a wonderful stay here'', ''ok'']\<rparr>"

definition emptyElement :: reviewElement where
  "emptyElement = plainElement\<lparr>h2 := Some ''Ben'', spans := [''too short'']\<rparr>"

definition ratedElement :: reviewElement where
  "ratedElement = plainElement\<lparr>spans := [''Stayed a week'', ''Rating, 4 stars''], starSvgs := 5\<rparr>"

definition zeroStarsElement :: reviewElement where
  "zeroStarsElement = plainElement\<lparr>spans := [''Rating, 0 stars''], starSvgs := 3\<rparr>"

definition hugeStarsElement :: reviewElement where
  "hugeStarsElement = plainElement\<lparr>spans := [''Rating, 9007199254740993 stars'']\<rparr>"

definition primaryDom :: dom where
  "primaryDom =
     \<lparr>reviewElements = [namedElement, emptyElement, namelessElement], fallbackElements = []\<rparr>"

definition nameOnlyDom :: dom where
  "nameOnlyDom = \<lparr>reviewElements = [],
     fallbackElements = [\<lparr>fbName = Some ''Ana'', fbDate = None, fbText = None\<rparr>]\<rparr>"

definition textOnlyDom :: dom where
  "textOnlyDom = \<lparr>reviewElements = [],
     fallbackElements = [\<lparr>fbName = None, fbDate = None, fbText = Some ''Nice''\<rparr>,
                         \<lparr>fbName = Some ''  '', fbDate = Some ''May'', fbText = None\<rparr>]\<rparr>"

text \<open>
  How a record \<open>r\<close> of the primary mode comes from an element: its text is the element's and
  is not empty; its name is the element's when that is not empty, and otherwise the text
  has more than 20 characters and the name is \<^verbatim>\<open>Anonymous\<close>.
\<close>

definition keptFrom :: "reviewElement \<Rightarrow> review \<Rightarrow> bool" where
  "keptFrom element r \<longleftrightarrow>
     reviewText r = elementText element \<and> truthy (reviewText r)
     \<and> (truthy (elementName element) \<and> name r = elementName element
        \<or> \<not> truthy (elementName element) \<and> longText (reviewText r)
           \<and> name r = Some ''Anonymous'')"

section \<open>Review analysis and question answering (browser-ai-integration.js)\<close>

subsection \<open>Values\<close>

text \<open>
  Results are JavaScript objects whose keys matter to the claims, so they are modelled as
  JSON values; an object is the list of its properties in insertion order. Code units
  above 255 in string constants of the source (the warning sign and the check mark of the
  messages, the arrows of the prompt) are written as the character \<open>0x1A\<close>, one per code
  unit.
\<close>

datatype json =
  JNull | JBool bool | JNum int | JStr string | JArr "json list" | JObj "(string \<times> json) list"

fun getField :: "json \<Rightarrow> string \<Rightarrow> json option" where
  "getField (JObj props) key = map_of props key"
| "getField other key = None"

text \<open>\<^verbatim>\<open>obj.key\<close> as a value; \<^const>\<open>JNull\<close> also stands for \<^verbatim>\<open>undefined\<close>.\<close>

definition fieldOf :: "json \<Rightarrow> string \<Rightarrow> json" where
  "fieldOf obj key = (case getField obj key of Some v \<Rightarrow> v | None \<Rightarrow> JNull)"

text \<open>\<^verbatim>\<open>obj.key = value\<close>: an existing property keeps its place, a new one goes last.\<close>

fun assign :: "(string \<times> json) list \<Rightarrow> string \<Rightarrow> json \<Rightarrow> (string \<times> json) list" where
  "assign [] key v = [(key, v)]"
| "assign ((k, w) # props) key v =
     (if k = key then (k, v) # props else (k, w) # assign props key v)"

fun setField :: "json \<Rightarrow> string \<Rightarrow> json \<Rightarrow> json" where
  "setField (JObj props) key v = JObj (assign props key v)"
| "setField other key v = other"

fun jsTruthy :: "json \<Rightarrow> bool" where
  "jsTruthy JNull = False"
| "jsTruthy (JBool b) = b"
| "jsTruthy (JNum n) = (n \<noteq> 0)"
| "jsTruthy (JStr s) = (s \<noteq> [])"
| "jsTruthy (JArr xs) = True"
| "jsTruthy (JObj props) = True"

text \<open>\<^verbatim>\<open>obj.key || other\<close> for a property that may be absent.\<close>

definition orElse :: "json option \<Rightarrow> json \<Rightarrow> json" where
  "orElse v other = (case v of Some w \<Rightarrow> if jsTruthy w then w else other | None \<Rightarrow> other)"

fun message :: "jsError \<Rightarrow> string" where
  "message (Error m) = m"
| "message (TypeError m) = m"

text \<open>\<^verbatim>\<open>String(n)\<close> for a whole number.\<close>

fun digitsOf :: "nat \<Rightarrow> string" where
  "digitsOf n = (if n < 10 then [char_of (48 + n)] else digitsOf (n div 10) @ [char_of (48 + n mod 10)])"

declare digitsOf.simps [simp del]

definition numberToString :: "int \<Rightarrow> string" where
  "numberToString n = (if n < 0 then ''-'' @ digitsOf (nat (- n)) else digitsOf (nat n))"

text \<open>
  \<^verbatim>\<open>toLowerCase()\<close> on code units below 256: the letters \<^verbatim>\<open>A\<close> to \<^verbatim>\<open>Z\<close> and the capital
  letters of Latin-1.
\<close>

definition lowerChar :: "char \<Rightarrow> char" where
  "lowerChar c =
     (let n = (of_char c :: nat)
      in if (65 \<le> n \<and> n \<le> 90) \<or> (192 \<le> n \<and> n \<le> 222 \<and> n \<noteq> 215) then char_of (n + 32) else c)"

definition toLowerCase :: "string \<Rightarrow> string" where
  "toLowerCase s = map lowerChar s"

text \<open>
  A review as the analysis receives it: the record of the collector, or one with a
  \<^verbatim>\<open>comments\<close> property instead of \<^verbatim>\<open>text\<close>.
\<close>

record inputReview = review +
  comments :: "string option"

text \<open>\<^verbatim>\<open>review.text || review.comments || ''\<close>.\<close>

definition orString :: "string option \<Rightarrow> string \<Rightarrow> string" where
  "orString s other = (case s of Some t \<Rightarrow> if t \<noteq> [] then t else other | None \<Rightarrow> other)"

definition reviewBody :: "inputReview \<Rightarrow> string" where
  "reviewBody r = orString (reviewText r) (orString (comments r) [])"

definition MAX_CHARS_PER_REVIEW :: nat where
  "MAX_CHARS_PER_REVIEW = 500"

definition truncateReview :: "string \<Rightarrow> string" where
  "truncateReview reviewText' =
     (if reviewText' = [] then []
      else if length reviewText' \<le> MAX_CHARS_PER_REVIEW then reviewText'
      else take MAX_CHARS_PER_REVIEW reviewText' @ ''...'')"

subsection \<open>\<^verbatim>\<open>buildReviewCache\<close> and \<^verbatim>\<open>askQuestion\<close>\<close>

record cachedReview =
  c_id :: nat
  c_text :: string
  original_length :: nat
  was_truncated :: bool

text \<open>
  The \<^verbatim>\<open>reviews\<close> array of the cache; the metadata (a count, a time stamp and two constants)
  is not read by \<^verbatim>\<open>askQuestion\<close>.
\<close>

definition buildReviewCache :: "inputReview list \<Rightarrow> cachedReview list" where
  "buildReviewCache reviews =
     filter (\<lambda>r. length (c_text r) > 10)
       (map (\<lambda>(index, review).
               (let text = trim (reviewBody review)
                in \<lparr>c_id = index, c_text = truncateReview text, original_length = length text,
                    was_truncated = (length text > MAX_CHARS_PER_REVIEW)\<rparr>))
            (enumerate 0 (take 100 reviews)))"

text \<open>
  The Prompt API is outside the program. \<open>createSession\<close> is the outcome of
  \<^verbatim>\<open>initLanguageModelSession\<close> (\<^const>\<open>None\<close>: a session was created); \<open>prompt m n p\<close> is
  the outcome of the \<open>n\<close>-th call of \<^verbatim>\<open>session.prompt\<close> (counted from 0) with the prompt \<open>p\<close>,
  a response or an exception; \<open>availableTokens m n\<close> is
  \<^verbatim>\<open>session.maxTokens - session.tokensSoFar\<close> before that call, \<^const>\<open>None\<close> when it is not a
  number (a comparison with \<^verbatim>\<open>NaN\<close> is false); \<open>destroySession\<close> is the outcome of
  \<^verbatim>\<open>session.destroy()\<close>.
\<close>

record languageModel =
  createSession :: "jsError option"
  prompt :: "nat \<Rightarrow> string \<Rightarrow> jsError + string"
  availableTokens :: "nat \<Rightarrow> int option"
  destroySession :: "jsError option"

definition notFoundMarker :: string where
  "notFoundMarker = ''NOT_FOUND_IN_THIS_BATCH''"

definition noReviewsAnswer :: string where
  "noReviewsAnswer = ''No reviews available to answer your question.''"

definition notMentionedAnswer :: string where
  "notMentionedAnswer =
     ''Sorry, this information is not mentioned in the reviews. The guests did not discuss this topic in their feedback.''"

definition errorAnswer :: "jsError \<Rightarrow> string" where
  "errorAnswer error =
     ''Sorry, I encountered an error: '' @ message error @
     ''. Please make sure you have enabled the Prompt API in Chrome.''"

text \<open>The template literal of the prompt.\<close>

definition questionPrompt :: "string \<Rightarrow> string \<Rightarrow> string" where
  "questionPrompt question reviewTexts =
     ''QUESTION: '' @ [CHR 0x22] @
     question @
     [CHR 0x22, CHR 0x0A] @
     [CHR 0x0A] @
     ''REVIEWS FROM GUESTS:'' @ [CHR 0x0A] @
     reviewTexts @
     [CHR 0x0A] @
     [CHR 0x0A] @
     ''CRITICAL INSTRUCTIONS:'' @ [CHR 0x0A] @
     ''1. Read the question CAREFULLY and understand EXACTLY what is being asked'' @ [CHR 0x0A] @
     ''2. If asking about '' @ [CHR 0x22] @ ''places to avoid AROUND'' @ [CHR 0x22] @ '' '' @ [CHR 0x1A] @ '' Answer about NEIGHBORHOOD safety/areas, NOT property problems'' @ [CHR 0x0A] @
     ''3. If asking about '' @ [CHR 0x22] @ ''food nearby'' @ [CHR 0x22] @ '' '' @ [CHR 0x1A] @ '' Mention SPECIFIC food types (Italian, Mexican, BBQ, etc.), not just '' @ [CHR 0x22] @ ''restaurants'' @ [CHR 0x22, CHR 0x0A] @
     ''4. If asking about '' @ [CHR 0x22] @ ''things to do AROUND'' @ [CHR 0x22] @ '' '' @ [CHR 0x1A] @ '' Focus on NEIGHBORHOOD attractions/activities'' @ [CHR 0x0A] @
     ''5. ONLY use information actually in these reviews'' @ [CHR 0x0A] @
     ''6. If answer NOT found, say: '' @ [CHR 0x22] @ ''NOT_FOUND_IN_THIS_BATCH'' @ [CHR 0x22, CHR 0x0A] @
     ''7. NO review number citations'' @ [CHR 0x0A] @
     ''8. Answer the EXACT question asked, not something similar'' @ [CHR 0x0A] @
     [CHR 0x0A] @
     ''Your answer:''"

text \<open>How the search loop ends.\<close>

datatype searchOutcome = Found string | NotFound | Threw jsError

text \<open>
  The \<^verbatim>\<open>for\<close> loop over the batches of ten cached reviews, from \<open>startIndex\<close> on.
  \<^const>\<open>Found\<close> is the exit with \<^verbatim>\<open>answerFound = true\<close> and the response in \<^verbatim>\<open>finalAnswer\<close>;
  \<^const>\<open>NotFound\<close> is the exit by the loop test or by the \<^verbatim>\<open>break\<close> for lack of tokens.
\<close>

function searchBatches :: "languageModel \<Rightarrow> string \<Rightarrow> cachedReview list \<Rightarrow> nat \<Rightarrow> searchOutcome" where
  "searchBatches m question reviews startIndex =
     (if startIndex < length reviews then
        (let batchNumber = startIndex div 10 + 1;
             reviewBatch = take 10 (drop startIndex reviews);
             reviewTexts = join separator (map c_text reviewBatch);
             prompt' = questionPrompt question reviewTexts;
             promptTokens = estimateTokens prompt'
         in if (case availableTokens m (batchNumber - 1) of
                  None \<Rightarrow> False
                | Some available \<Rightarrow> int promptTokens > available)
            then NotFound
            else
              (case prompt m (batchNumber - 1) prompt' of
                 Inl error \<Rightarrow> Threw error
               | Inr response \<Rightarrow>
                   if \<not> jsIncludes response notFoundMarker then Found response
                   else searchBatches m question reviews (startIndex + 10)))
      else NotFound)"
  by pat_completeness auto
termination
  by (relation "measure (\<lambda>(m, question, reviews, startIndex). length reviews - startIndex)") auto

declare searchBatches.simps [simp del]

text \<open>
  \<^verbatim>\<open>askQuestion\<close>. \<open>reviews\<close> is \<^const>\<open>None\<close> for \<^verbatim>\<open>null\<close> or \<^verbatim>\<open>undefined\<close>; \<open>reviewCache\<close> is
  the field \<^verbatim>\<open>this.reviewCache\<close> at the time of the call. An exception anywhere in the
  \<^verbatim>\<open>try\<close> block, also one of \<^verbatim>\<open>destroy()\<close>, ends in the \<^verbatim>\<open>catch\<close> block, which returns the
  error answer.
\<close>

definition askQuestion ::
  "languageModel \<Rightarrow> cachedReview list option \<Rightarrow> inputReview list option \<Rightarrow> string \<Rightarrow> string" where
  "askQuestion m reviewCache reviews question =
     (case reviews of
        None \<Rightarrow> noReviewsAnswer
      | Some rs \<Rightarrow>
          if length rs = 0 then noReviewsAnswer
          else
            (let cache = (case reviewCache of None \<Rightarrow> buildReviewCache rs | Some c \<Rightarrow> c)
             in case createSession m of
                  Some error \<Rightarrow> errorAnswer error
                | None \<Rightarrow>
                    (case searchBatches m question cache 0 of
                       Threw error \<Rightarrow> errorAnswer error
                     | Found finalAnswer \<Rightarrow>
                         (case destroySession m of
                            Some error \<Rightarrow> errorAnswer error
                          | None \<Rightarrow> if finalAnswer \<noteq> [] then finalAnswer else notMentionedAnswer)
                     | NotFound \<Rightarrow>
                         (case destroySession m of
                            Some error \<Rightarrow> errorAnswer error
                          | None \<Rightarrow> notMentionedAnswer))))"

text \<open>The prompt that the loop sends for the batch with number \<open>n\<close>, counted from 0.\<close>

definition batchPrompt :: "string \<Rightarrow> cachedReview list \<Rightarrow> nat \<Rightarrow> string" where
  "batchPrompt question cache n =
     questionPrompt question (join separator (map c_text (take 10 (drop (10 * n) cache))))"

text \<open>The token test lets the call for batch \<open>n\<close> pass.\<close>

definition tokensSuffice :: "languageModel \<Rightarrow> string \<Rightarrow> cachedReview list \<Rightarrow> nat \<Rightarrow> bool" where
  "tokensSuffice m question cache n =
     (case availableTokens m n of
        None \<Rightarrow> True
      | Some available \<Rightarrow> int (estimateTokens (batchPrompt question cache n)) \<le> available)"

text \<open>Every call of the model answers, and every answer carries the not-found marker.\<close>

definition allBatchesNotFound :: "languageModel \<Rightarrow> bool" where
  "allBatchesNotFound m \<longleftrightarrow> (\<forall>n p. \<exists>r. prompt m n p = Inr r \<and> jsIncludes r notFoundMarker)"

text \<open>
  Batch \<open>k\<close> exists and is the first whose response has no marker: the batches before it
  pass the token test and are answered with the marker, batch \<open>k\<close> passes the token test and
  is answered with \<open>response\<close>. Nothing is said about later batches.
\<close>

definition firstAnswerAt ::
  "languageModel \<Rightarrow> string \<Rightarrow> cachedReview list \<Rightarrow> nat \<Rightarrow> string \<Rightarrow> bool" where
  "firstAnswerAt m question cache k response \<longleftrightarrow>
     10 * k < length cache
     \<and> (\<forall>n<k. tokensSuffice m question cache n
            \<and> (\<exists>r. prompt m n (batchPrompt question cache n) = Inr r
                   \<and> jsIncludes r notFoundMarker))
     \<and> tokensSuffice m question cache k
     \<and> prompt m k (batchPrompt question cache k) = Inr response
     \<and> \<not> jsIncludes response notFoundMarker"

text \<open>A sample review, and a model that gives the same response to every prompt.\<close>

definition guestReview :: "string \<Rightarrow> inputReview" where
  "guestReview t = \<lparr>name = Some ''Ana'', location = None, date = None, stayDetails = None,
     reviewText = Some t, rating = Some (Whole 5), comments = None\<rparr>"

definition modelReplying :: "string \<Rightarrow> languageModel" where
  "modelReplying response = \<lparr>createSession = None, prompt = (\<lambda>n p. Inr response),
     availableTokens = (\<lambda>n. None), destroySession = None\<rparr>"

subsection \<open>\<^verbatim>\<open>fallbackReviewAnalysis\<close>\<close>

definition positiveWords :: "string list" where
  "positiveWords = [''great'', ''excellent'', ''amazing'', ''perfect'', ''love'', ''wonderful'', ''fantastic'', ''clean'', ''comfortable'', ''beautiful'']"

definition negativeWords :: "string list" where
  "negativeWords = [''bad'', ''terrible'', ''awful'', ''dirty'', ''uncomfortable'', ''noisy'', ''poor'', ''disappointing'']"

text \<open>
  The two counting loops: for every review text, the number of words of the list that its
  lower-case form contains, added up.
\<close>

definition countWords :: "string list \<Rightarrow> string list \<Rightarrow> nat" where
  "countWords wordList reviewTexts =
     sum_list (map (\<lambda>text. length (filter (\<lambda>word. jsIncludes (toLowerCase text) word) wordList))
                reviewTexts)"

text \<open>\<^verbatim>\<open>words.some(w => lowerText.includes(w))\<close>, also used for the alternatives of a regular
  expression that is a list of plain words.\<close>

definition includesAny :: "string \<Rightarrow> string list \<Rightarrow> bool" where
  "includesAny lowerText wordList = list_ex (\<lambda>w. jsIncludes lowerText w) wordList"

text \<open>
  The counters \<^verbatim>\<open>{positive, negative}\<close> of a theme: the reviews that mention one of the
  theme's words and contain a positive, respectively a negative, word.
\<close>

definition themeCounts :: "string list \<Rightarrow> string list \<Rightarrow> nat \<times> nat" where
  "themeCounts themeWords reviewTexts =
     (length (filter (\<lambda>text. includesAny (toLowerCase text) themeWords
                          \<and> includesAny (toLowerCase text) positiveWords) reviewTexts),
      length (filter (\<lambda>text. includesAny (toLowerCase text) themeWords
                          \<and> includesAny (toLowerCase text) negativeWords) reviewTexts))"

definition noiseCounts :: "string list \<Rightarrow> nat \<times> nat" where
  "noiseCounts reviewTexts =
     (length (filter (\<lambda>text. includesAny (toLowerCase text) [''noise'', ''noisy'', ''quiet'', ''loud'', ''peaceful'']
                          \<and> includesAny (toLowerCase text) [''quiet'', ''peaceful'']) reviewTexts),
      length (filter (\<lambda>text. includesAny (toLowerCase text) [''noise'', ''noisy'', ''quiet'', ''loud'', ''peaceful'']
                          \<and> includesAny (toLowerCase text) [''noisy'', ''loud'', ''noise'']) reviewTexts))"

definition whenList :: "bool \<Rightarrow> 'a \<Rightarrow> 'a list" where
  "whenList c x = (if c then [x] else [])"

text \<open>
  \<^verbatim>\<open>Math.round((count / total) * 100)\<close> is computed in floating point, where the product
  can fall just below a half that the exact quotient reaches (\<^verbatim>\<open>29 / 200 * 100\<close> is
  \<^verbatim>\<open>14.499999999999998\<close>). It is a parameter \<open>percent\<close> of the model, and \<^const>\<open>jsPercent\<close>
  is the function that the source computes; nothing proved here depends on its values.
\<close>

definition fallbackReviewAnalysis :: "(nat \<Rightarrow> nat \<Rightarrow> int) \<Rightarrow> inputReview list \<Rightarrow> json" where
  "fallbackReviewAnalysis percent reviews =
     (let reviewTexts = filter (\<lambda>t. length t > 10) (map reviewBody reviews);
          positiveCount = countWords positiveWords reviewTexts;
          negativeCount = countWords negativeWords reviewTexts;
          total = (if positiveCount + negativeCount = 0 then 1 else positiveCount + negativeCount);
          positivePercentage = percent positiveCount total;
          negativePercentage = percent negativeCount total;
          neutralPercentage = 100 - positivePercentage - negativePercentage;
          cleanliness = themeCounts [''clean'', ''tidy'', ''spotless''] reviewTexts;
          location' = themeCounts [''location'', ''area'', ''convenient''] reviewTexts;
          host = themeCounts [''host'', ''communication'', ''responsive''] reviewTexts;
          value = themeCounts [''value'', ''price'', ''worth''] reviewTexts;
          comfort = themeCounts [''comfortable'', ''cozy'', ''bed''] reviewTexts;
          amenities = themeCounts [''amenities'', ''kitchen'', ''facilities''] reviewTexts;
          noiseLevels = noiseCounts reviewTexts;
          actualPros =
            whenList (fst cleanliness > 2) ''Excellent cleanliness standards maintained'' @
            whenList (fst location' > 2) ''Convenient location with good accessibility'' @
            whenList (fst host > 2) ''Responsive and helpful host communication'' @
            whenList (fst value > 2) ''Good value for money'' @
            whenList (fst comfort > 2) ''Comfortable and welcoming atmosphere'' @
            whenList (fst amenities > 2) ''Well-equipped with necessary amenities'' @
            whenList (fst noiseLevels > 2) ''Quiet and peaceful environment'';
          actualCons =
            whenList (snd cleanliness > 1) ''Some guests noted cleanliness concerns'' @
            whenList (snd location' > 1) ''Location may not suit all preferences'' @
            whenList (snd host > 1) ''Host responsiveness could be improved'' @
            whenList (snd value > 1) ''Value perception varies among guests'' @
            whenList (snd comfort > 1) ''Comfort levels received mixed feedback'' @
            whenList (snd amenities > 1) ''Amenities may need updating'' @
            whenList (snd noiseLevels > 1) ''Noise levels mentioned as a concern'';
          allReviewsText = toLowerCase (join '' '' reviewTexts);
          recommended_for =
            whenList (includesAny allReviewsText [''family'', ''families'', ''kid'', ''child'', ''toddler'', ''baby'', ''daughter'', ''son'']) ''Families with children'' @
            whenList (includesAny allReviewsText [''couple'', ''romantic'', ''anniversary'', ''honeymoon'']) ''Couples'' @
            whenList (includesAny allReviewsText [''business'', ''work'', ''conference'', ''meeting'']) ''Business travelers'' @
            whenList (includesAny allReviewsText [''solo'', ''alone'', ''myself'', ''independent'']) ''Solo travelers'' @
            whenList (includesAny allReviewsText [''group'', ''friends'', ''reunion'', ''party'']) ''Groups of friends'';
          not_recommended_for =
            whenList (includesAny allReviewsText [''noise'', ''noisy'', ''loud'', ''hear'', ''sound'']) ''Light sleepers'' @
            whenList (includesAny allReviewsText [''stairs'', ''climb'', ''steep'', ''uphill'', ''no elevator'', ''walk up'']) ''Guests with mobility issues'' @
            whenList (includesAny allReviewsText [''small'', ''tiny'', ''cramped'', ''tight'']
                      \<and> includesAny allReviewsText [''space'', ''room'']) ''Large groups'';
          bestFeatures =
            whenList (fst cleanliness > 2) ''Cleanliness'' @
            whenList (fst location' > 2) ''Location'' @
            whenList (fst host > 2) ''Host Communication'' @
            whenList (fst value > 2) ''Value for Money'' @
            whenList (fst comfort > 2) ''Comfort'' @
            whenList (fst amenities > 2) ''Amenities'' @
            whenList (fst noiseLevels > 2) ''Quiet Environment'';
          improvements =
            whenList (snd cleanliness > 1) ''Cleanliness'' @
            whenList (snd location' > 1) ''Location'' @
            whenList (snd host > 1) ''Host Communication'' @
            whenList (snd value > 1) ''Value for Money'' @
            whenList (snd comfort > 1) ''Comfort'' @
            whenList (snd amenities > 1) ''Amenities'' @
            whenList (snd noiseLevels > 1) ''Noise Levels''
      in JObj
        [(''success'', JBool True),
         (''analysis_type'', JStr ''basic_analysis''),
         (''trust_score'', JNum (min 90 (max 50 (positivePercentage + 10)))),
         (''sentiment_analysis'', JObj
            [(''positive_percentage'', JNum positivePercentage),
             (''neutral_percentage'', JNum neutralPercentage),
             (''negative_percentage'', JNum negativePercentage),
             (''overall_sentiment'',
                JStr (if positivePercentage > negativePercentage then ''positive'' else ''negative''))]),
         (''keyword_analysis'', JArr []),
         (''pros_and_cons'', JObj
            [(''pros'', JArr (map JStr (take 7 actualPros))),
             (''cons'', JArr (map JStr (take 7 actualCons)))]),
         (''guest_insights'', JObj
            [(''recommended_for'', JArr (map JStr recommended_for)),
             (''not_recommended_for'', JArr (map JStr not_recommended_for)),
             (''best_features'', JArr (map JStr bestFeatures)),
             (''areas_for_improvement'', JArr (map JStr improvements))]),
         (''summary'', JStr
            (''Based on analyzing '' @ numberToString (int (length reviews)) @
             '' guest reviews, this property demonstrates '' @ numberToString positivePercentage @
             ''% positive sentiment overall. '' @
             (if length actualPros > 0
              then ''Key strengths include: '' @ join '', '' (take 3 actualPros) @ ''. '' else []) @
             (if length actualCons > 0
              then ''Areas noted for potential improvement: '' @ join '', '' (take 3 actualCons) @ ''.''
              else []) @
             '' The property appears to '' @
             (if positivePercentage \<ge> 75 then ''consistently meet guest expectations''
              else if positivePercentage \<ge> 50
              then ''generally satisfy most guests with some areas for enhancement''
              else ''have mixed reviews that potential guests should carefully consider'') @
             ''.'')),
         (''reviews_analyzed'', JNum (int (length reviews))),
         (''message'', JStr ''Basic analysis (Browser AI not available - showing real data only)'')])"

subsection \<open>\<^verbatim>\<open>analyzeReviews\<close>\<close>

text \<open>
  The two browser APIs are outside the program. \<open>summarizerSession\<close> is the outcome of
  \<^verbatim>\<open>initSummarizerSession\<close> (\<^const>\<open>None\<close>: a session was created); \<open>summarize api n text\<close> is
  the outcome of the call of \<^verbatim>\<open>summarizerSession.summarize\<close> for chunk \<open>n\<close>, counted from 0.
  \<open>finishAnalysis\<close> stands for the rest of the \<^verbatim>\<open>try\<close> block once a chunk summary exists
  (the recursive summary, the structured extraction through the Prompt API, the release of
  the sessions): it returns the analysis or raises. \<open>promptExtraction\<close> stands for
  \<^verbatim>\<open>cloneLanguageModelSession\<close> followed by \<^verbatim>\<open>extractStructuredData\<close> on the path taken when the
  summarizer is unavailable: it returns an object or raises.
\<close>

record browserAI =
  summarizerSession :: "jsError option"
  summarize :: "nat \<Rightarrow> string \<Rightarrow> jsError + string"
  finishAnalysis :: "string list \<Rightarrow> jsError + json"
  promptExtraction :: "jsError + (string \<times> json) list"
  percent :: "nat \<Rightarrow> nat \<Rightarrow> int"

text \<open>The texts of \<^verbatim>\<open>truncatedReviews\<close>.\<close>

definition truncatedTexts :: "inputReview list \<Rightarrow> string list" where
  "truncatedTexts reviews =
     filter (\<lambda>t. length t > 10)
       (map (\<lambda>review. truncateReview (trim (reviewBody review))) (take 100 reviews))"

text \<open>
  The loop that summarizes each chunk: a summary is pushed onto \<^verbatim>\<open>chunkSummaries\<close>, an
  exception is logged and the loop goes on. \<open>i\<close> is the index of the first chunk of the list.
\<close>

fun summarizeChunks :: "browserAI \<Rightarrow> nat \<Rightarrow> string list list \<Rightarrow> string list" where
  "summarizeChunks api i [] = []"
| "summarizeChunks api i (chunk # chunks) =
     (case summarize api i (join separator chunk) of
        Inr summary \<Rightarrow> summary # summarizeChunks api (i + 1) chunks
      | Inl error \<Rightarrow> summarizeChunks api (i + 1) chunks)"

text \<open>The \<^verbatim>\<open>try\<close> block of \<^verbatim>\<open>analyzeReviews\<close>: its value, or the exception that leaves it.\<close>

definition tryAnalysis :: "browserAI \<Rightarrow> inputReview list \<Rightarrow> jsError + json" where
  "tryAnalysis api reviews =
     (case summarizerSession api of
        Some error \<Rightarrow> Inl error
      | None \<Rightarrow>
          (let chunks = createOptimizedChunks (truncatedTexts reviews) 1;
               chunkSummaries = summarizeChunks api 0 chunks
           in if length chunkSummaries = 0
              then Inl (Error ''All chunk summarizations failed'')
              else finishAnalysis api chunkSummaries))"

definition promptFallbackMessage :: string where
  "promptFallbackMessage = [CHR 0x1A] @ '' Analysis completed using Prompt API (Summarizer API unavailable)''"

definition bothUnavailableMessage :: string where
  "bothUnavailableMessage = [CHR 0x1A, CHR 0x1A] @ '' Using basic analysis (both AI APIs unavailable)''"

definition errorOccurredMessage :: string where
  "errorOccurredMessage = [CHR 0x1A, CHR 0x1A] @ '' Using basic analysis (error occurred)''"

text \<open>
  \<^verbatim>\<open>analyzeReviews\<close>. \<open>isAnalyzing\<close> is the field \<^verbatim>\<open>this.isAnalyzing\<close> at the time of the
  call, \<open>reviews\<close> is \<^const>\<open>None\<close> for \<^verbatim>\<open>null\<close> or \<^verbatim>\<open>undefined\<close>. The two guards stand before
  the \<^verbatim>\<open>try\<close> block, so their exceptions reach the caller; an exception of the \<^verbatim>\<open>try\<close>
  block is handled by the \<^verbatim>\<open>catch\<close> block.
\<close>

definition analyzeReviews :: "browserAI \<Rightarrow> bool \<Rightarrow> inputReview list option \<Rightarrow> jsError + json" where
  "analyzeReviews api isAnalyzing reviews =
     (case reviews of
        None \<Rightarrow> Inl (Error ''No reviews to analyze'')
      | Some rs \<Rightarrow>
          if length rs = 0 then Inl (Error ''No reviews to analyze'')
          else if isAnalyzing then Inl (Error ''Analysis already in progress'')
          else
            (case tryAnalysis api rs of
               Inr structuredAnalysis \<Rightarrow> Inr structuredAnalysis
             | Inl error \<Rightarrow>
                 (let fallback = fallbackReviewAnalysis (percent api) (take 100 rs)
                  in if message error = ''SUMMARIZER_UNAVAILABLE'' then
                       (case promptExtraction api of
                          Inr structuredData \<Rightarrow>
                            Inr (setField (setField (setField (setField (setField fallback
                              ''keyword_analysis''
                                (orElse (map_of structuredData ''keyword_analysis'')
                                   (fieldOf fallback ''keyword_analysis'')))
                              ''pros_and_cons''
                                (orElse (map_of structuredData ''pros_and_cons'')
                                   (fieldOf fallback ''pros_and_cons'')))
                              ''guest_insights''
                                (orElse (map_of structuredData ''guest_insights'')
                                   (fieldOf fallback ''guest_insights'')))
                              ''message'' (JStr promptFallbackMessage))
                              ''keyword_analysis_error''
                                (orElse (map_of structuredData ''_errorReason'') JNull))
                        | Inl promptError \<Rightarrow>
                            Inr (setField fallback ''message'' (JStr bothUnavailableMessage)))
                     else Inr (setField fallback ''message'' (JStr errorOccurredMessage)))))"

text \<open>The keys of an AggregateResult that the specification names.\<close>

definition requiredKeys :: "string list" where
  "requiredKeys = [''keyword_analysis'', ''pros_and_cons'', ''guest_insights'', ''summary'',
     ''trust_score'', ''reviews_analyzed'']"

text \<open>
  An API whose summarizer session is created and whose \<^verbatim>\<open>summarize\<close> raises on every chunk;
  the percentages are those of the source.
\<close>

definition failingAI :: browserAI where
  "failingAI =
     \<lparr>summarizerSession = None,
      summarize = (\<lambda>n text. Inl (Error ''The model is not available'')),
      finishAnalysis = (\<lambda>summaries. Inl (Error ''unreachable'')),
      promptExtraction = Inl (Error ''The model is not available''),
      percent = jsPercent\<rparr>"

text \<open>A property of the returned object, \<^const>\<open>None\<close> when the call raised.\<close>

definition resultField :: "jsError + json \<Rightarrow> string \<Rightarrow> json option" where
  "resultField r key = (case r of Inl error \<Rightarrow> None | Inr v \<Rightarrow> getField v key)"

section \<open>Proofs: numbers\<close>

text \<open>Whole numbers of magnitude up to \<open>2^53\<close> are doubles, and their sums are exact.\<close>

lemma bitLength_bound: "m < 2 ^ k \<Longrightarrow> bitLength m \<le> k"
proof (induction k arbitrary: m)
  case 0
  then show ?case by (simp add: bitLength.simps)
next
  case (Suc k)
  then have "m div 2 < 2 ^ k" by auto
  then have "bitLength (m div 2) \<le> k" by (rule Suc.IH)
  then show ?case by (subst bitLength.simps) simp
qed

lemma toDouble_exact:
  assumes "\<bar>n\<bar> \<le> 2 ^ 53"
  shows "toDouble n = Whole n"
proof -
  have m: "nat \<bar>n\<bar> \<le> 2 ^ 53" using assms by (simp add: nat_le_iff)
  then have r: "roundNat (nat \<bar>n\<bar>) = nat \<bar>n\<bar>" by (simp add: roundNat_def)
  have "nat \<bar>n\<bar> < 2 ^ 54" using m by simp
  then have "bitLength (nat \<bar>n\<bar>) \<le> 54" by (rule bitLength_bound)
  then show ?thesis by (simp add: toDouble_def r Let_def)
qed

lemma jsAdd_exact:
  "\<bar>a\<bar> + \<bar>b\<bar> \<le> 2 ^ 53 \<Longrightarrow> jsAdd (Whole a) (Whole b) = Whole (a + b)"
  by (simp add: toDouble_exact)

text \<open>
  \<^const>\<open>toDouble\<close> rounds to the nearest double and to the even one at a tie, and
  \<^const>\<open>jsPercent\<close> gives the percentages of the source where exact rounding would differ
  (\<open>23 / 40\<close>, \<open>29 / 200\<close>).
\<close>

lemma toDouble_rounds:
  "toDouble 9007199254740993 = Whole 9007199254740992"
  "toDouble 9007199254740995 = Whole 9007199254740996"
  "toDouble (- 9007199254740993) = Whole (- 9007199254740992)"
  "toDouble 100000000000000000001 = Whole 100000000000000000000"
  by (simp_all add: toDouble_def roundNat_def bitLength.simps Let_def)

lemma jsPercent_values:
  "jsPercent 23 40 = 57" "jsPercent 29 200 = 14" "jsPercent 1 1 = 100" "jsPercent 1 3 = 33"
  "jsPercent 2 3 = 67" "jsPercent 1 8 = 13" "jsPercent 0 1 = 0"
  by (simp_all add: jsPercent_def bitLength.simps)
     (simp_all add: roundNat_def bitLength.simps Let_def)

section \<open>Proofs: the chunker\<close>

lemma length_join:
  "chunk \<noteq> [] \<Longrightarrow> length (join separator chunk) + length separator = chunkChars chunk"
  by (induction separator chunk rule: join.induct) (auto simp: chunkChars_def)

lemma chunkChars_append [simp]: "chunkChars (xs @ ys) = chunkChars xs + chunkChars ys"
  by (simp add: chunkChars_def)

lemma foldl_overlapSize:
  "foldl (\<lambda>sum r. sum + length r + length separator) a xs = a + chunkChars xs"
  by (induction xs arbitrary: a) (auto simp: chunkChars_def)

lemma chunkTokens_le:
  assumes "chunk \<noteq> []" "chunkChars chunk \<le> MAX_CHARS_PER_CHUNK + length separator"
  shows "chunkTokens chunk \<le> MAX_TOKENS_PER_CHUNK"
proof -
  have "length (join separator chunk) \<le> MAX_CHARS_PER_CHUNK"
    using length_join [OF assms(1)] assms(2) by simp
  then show ?thesis
    by (simp add: chunkTokens_def estimateTokens_def MAX_CHARS_PER_CHUNK_def MAX_TOKENS_PER_CHUNK_def)
qed

lemma okChunk_single: "r \<in> S \<Longrightarrow> okChunk S [r]"
  by (auto simp: okChunk_def chunkTokens_def)

lemma chunkChars_bounded:
  assumes "\<forall>r\<in>set xs. (Suc k) * (length r + length separator) \<le> B" "length xs \<le> Suc k"
  shows "chunkChars xs \<le> B"
proof -
  have "chunkChars xs \<le> length xs * (B div Suc k)"
    using assms(1)
  proof (induction xs)
    case Nil
    then show ?case by (simp add: chunkChars_def)
  next
    case (Cons r xs)
    have "length r + length separator \<le> B div Suc k"
      using Cons.prems by (simp add: less_eq_div_iff_mult_less_eq mult.commute)
    moreover have "chunkChars xs \<le> length xs * (B div Suc k)"
      using Cons by simp
    ultimately show ?case by (simp add: chunkChars_def)
  qed
  also have "\<dots> \<le> Suc k * (B div Suc k)"
    using assms(2) by (rule mult_le_mono1)
  also have "\<dots> \<le> B" by (rule times_div_less_eq_dividend)
  finally show ?thesis .
qed

lemma chunkLoop_ok:
  assumes "currentChunkSize = chunkChars currentChunk"
    and "set currentChunk \<union> set rest \<subseteq> S"
    and "k = 0 \<or> (\<forall>r\<in>S. (k + 1) * (length r + length separator) \<le> MAX_CHARS_PER_CHUNK + length separator)"
    and "\<forall>c\<in>set chunks. okChunk S c"
    and "currentChunk = [] \<or> okChunk S currentChunk"
  shows "\<forall>c\<in>set (chunkLoop k rest chunks currentChunk currentChunkSize). okChunk S c"
  using assms
proof (induction rest arbitrary: chunks currentChunk currentChunkSize)
  case Nil
  then show ?case by auto
next
  case (Cons review rest)
  let ?n = "length review + length separator"
  have rS: "review \<in> S" using Cons.prems(2) by simp
  show ?case
  proof (cases "currentChunkSize + length review + length separator > MAX_CHARS_PER_CHUNK \<and> length currentChunk > 0")
    case flush: True
    then have okc: "okChunk S currentChunk" using Cons.prems(5) by auto
    have chunks': "\<forall>c\<in>set (chunks @ [currentChunk]). okChunk S c"
      using Cons.prems(4) okc by simp
    show ?thesis
    proof (cases "k > 0 \<and> length currentChunk > k")
      case ov: True
      let ?o = "drop (length currentChunk - k) currentChunk"
      have bnd: "\<forall>r\<in>S. Suc k * (length r + length separator) \<le> MAX_CHARS_PER_CHUNK + length separator"
        using Cons.prems(3) ov by simp
      have sub: "set (?o @ [review]) \<subseteq> S"
        using Cons.prems(2) set_drop_subset [of "length currentChunk - k" currentChunk] by auto
      have len: "length (?o @ [review]) \<le> Suc k" by simp
      have "chunkChars (?o @ [review]) \<le> MAX_CHARS_PER_CHUNK + length separator"
        by (rule chunkChars_bounded [OF _ len]) (use bnd sub in blast)
      then have ok: "okChunk S (?o @ [review])"
        using chunkTokens_le [of "?o @ [review]"] by (simp add: okChunk_def)
      have "\<forall>c\<in>set (chunkLoop k rest (chunks @ [currentChunk]) (?o @ [review])
                 (chunkChars ?o + length review + length separator)). okChunk S c"
        by (rule Cons.IH) (use sub Cons.prems(2,3) chunks' ok in \<open>auto simp: chunkChars_def\<close>)
      then show ?thesis using flush ov by (simp add: Let_def foldl_overlapSize)
    next
      case noov: False
      have "\<forall>c\<in>set (chunkLoop k rest (chunks @ [currentChunk]) [review]
                 (0 + length review + length separator)). okChunk S c"
        by (rule Cons.IH) (use rS Cons.prems(2,3) chunks' okChunk_single in \<open>auto simp: chunkChars_def\<close>)
      then show ?thesis using flush noov by (auto simp: Let_def)
    qed
  next
    case keep: False
    have ok: "okChunk S (currentChunk @ [review])"
    proof (cases "currentChunk = []")
      case True
      then show ?thesis using rS by (simp add: okChunk_single)
    next
      case False
      then have "chunkChars (currentChunk @ [review]) \<le> MAX_CHARS_PER_CHUNK"
        using keep Cons.prems(1) by (simp add: chunkChars_def)
      then show ?thesis
        using chunkTokens_le [of "currentChunk @ [review]"] by (simp add: okChunk_def)
    qed
    have "\<forall>c\<in>set (chunkLoop k rest chunks (currentChunk @ [review])
                 (currentChunkSize + length review + length separator)). okChunk S c"
      by (rule Cons.IH) (use rS Cons.prems ok in \<open>auto simp: chunkChars_def\<close>)
    then show ?thesis using keep by (auto simp: Let_def)
  qed
qed

text \<open>
  Claim C3 (chunk ceiling), as the code has it. The ceiling holds for every chunk when
  \<^verbatim>\<open>createOptimizedChunks\<close> is called without overlap, and with an overlap of \<open>k\<close> reviews when
  \<open>k + 1\<close> reviews with their separators fit into one chunk, that is
  \<open>(k + 1) * (length r + 5) \<le> 3005\<close> for every review \<open>r\<close>; this is so for the default overlap
  of one review and the reviews of at most 503 code units that \<^verbatim>\<open>analyzeReviews\<close> passes.
  Under either condition a chunk is within the ceiling of 750 estimated tokens, separators
  included, or it is a single review that exceeds the ceiling alone; so when every review is
  within the ceiling, every chunk is.
\<close>

theorem chunk_ceiling:
  assumes "chunkOverlap = 0 \<or>
           (\<forall>r\<in>set reviews. (chunkOverlap + 1) * (length r + 5) \<le> 3005)"
  shows "(\<forall>c\<in>set (createOptimizedChunks reviews chunkOverlap).
            chunkTokens c \<le> 750 \<or> (\<exists>r\<in>set reviews. c = [r] \<and> 750 < estimateTokens r))
       \<and> ((\<forall>r\<in>set reviews. estimateTokens r \<le> 750) \<longrightarrow>
            (\<forall>c\<in>set (createOptimizedChunks reviews chunkOverlap). chunkTokens c \<le> 750))"
proof -
  have len5: "length separator = 5" and max: "MAX_CHARS_PER_CHUNK = 3000"
    by (simp_all add: separator_def MAX_CHARS_PER_CHUNK_def MAX_TOKENS_PER_CHUNK_def)
  have bnd: "chunkOverlap = 0 \<or> (\<forall>r\<in>set reviews.
      (chunkOverlap + 1) * (length r + length separator) \<le> MAX_CHARS_PER_CHUNK + length separator)"
    using assms unfolding len5 max by simp
  have "\<forall>c\<in>set (chunkLoop chunkOverlap reviews [] [] 0). okChunk (set reviews) c"
    by (rule chunkLoop_ok [OF _ _ bnd]) (simp_all add: chunkChars_def)
  then have *: "\<forall>c\<in>set (createOptimizedChunks reviews chunkOverlap).
            chunkTokens c \<le> 750 \<or> (\<exists>r\<in>set reviews. c = [r] \<and> 750 < estimateTokens r)"
    by (simp add: createOptimizedChunks_def okChunk_def MAX_TOKENS_PER_CHUNK_def)
  then show ?thesis by fastforce
qed

theorem chunk_ceiling_witness:
  "(1 + 1) * (length ''Great stay, very clean'' + 5) \<le> (3005::nat)
   \<and> (1 + 1) * (length ''Noisy at night'' + 5) \<le> (3005::nat)
   \<and> estimateTokens ''Great stay, very clean'' \<le> 750
   \<and> estimateTokens ''Noisy at night'' \<le> 750
   \<and> createOptimizedChunks [''Great stay, very clean'', ''Noisy at night''] 1
      = [[''Great stay, very clean'', ''Noisy at night'']]
   \<and> chunkTokens [''Great stay, very clean'', ''Noisy at night''] \<le> 750"
  using chunk_ceiling [of 1 "[''Great stay, very clean'', ''Noisy at night'']"]
  by (simp add: createOptimizedChunks_def estimateTokens_def separator_def
        MAX_CHARS_PER_CHUNK_def MAX_TOKENS_PER_CHUNK_def)

text \<open>
  Claim C3 as stated fails with the default overlap of one review. Three reviews of 10, 2980
  and 2990 code units are each within the ceiling. The first two fill a chunk
  (\<open>15 + 2985 = 3000\<close>); the third closes it, the new chunk is seeded with the second
  review, and the third is pushed onto it without a further test: the second chunk joins to
  \<open>2980 + 5 + 2990 = 5975\<close> code units, 1494 estimated tokens.
\<close>

theorem chunk_ceiling_counterexample:
  "estimateTokens (replicate 10 CHR ''a'') \<le> 750
   \<and> estimateTokens (replicate 2980 CHR ''b'') \<le> 750
   \<and> estimateTokens (replicate 2990 CHR ''c'') \<le> 750
   \<and> createOptimizedChunks
        [replicate 10 CHR ''a'', replicate 2980 CHR ''b'', replicate 2990 CHR ''c''] 1
      = [[replicate 10 CHR ''a'', replicate 2980 CHR ''b''],
         [replicate 2980 CHR ''b'', replicate 2990 CHR ''c'']]
   \<and> chunkTokens [replicate 2980 CHR ''b'', replicate 2990 CHR ''c''] = 1494"
  by (simp add: estimateTokens_def createOptimizedChunks_def chunkTokens_def separator_def
        MAX_CHARS_PER_CHUNK_def MAX_TOKENS_PER_CHUNK_def)

text \<open>
  The call in \<^verbatim>\<open>analyzeReviews\<close> is within the condition: its texts are truncated to 500
  code units plus the ellipsis, and two of them with their separators fit into a chunk. So
  every chunk that is sent to the summarizer respects the ceiling.
\<close>

lemma truncateReview_length: "length (truncateReview t) \<le> MAX_CHARS_PER_REVIEW + 3"
  by (simp add: truncateReview_def)

lemma analysis_chunks_within_ceiling:
  "\<forall>c\<in>set (createOptimizedChunks (truncatedTexts reviews) 1). chunkTokens c \<le> MAX_TOKENS_PER_CHUNK"
proof -
  let ?texts = "truncatedTexts reviews"
  have len: "\<forall>r\<in>set ?texts. length r \<le> 503"
    using truncateReview_length by (auto simp: truncatedTexts_def MAX_CHARS_PER_REVIEW_def)
  then have bnd: "1 = (0::nat) \<or> (\<forall>r\<in>set ?texts.
      (1 + 1) * (length r + length separator) \<le> MAX_CHARS_PER_CHUNK + length separator)"
    by (auto simp: separator_def MAX_CHARS_PER_CHUNK_def MAX_TOKENS_PER_CHUNK_def)
  have ok: "\<forall>c\<in>set (chunkLoop 1 ?texts [] [] 0). okChunk (set ?texts) c"
    by (rule chunkLoop_ok [OF _ _ bnd]) (simp_all add: chunkChars_def)
  have "\<not> MAX_TOKENS_PER_CHUNK < estimateTokens r" if "r \<in> set ?texts" for r
    using len that by (auto simp: estimateTokens_def MAX_TOKENS_PER_CHUNK_def)
  then show ?thesis
    using ok by (auto simp: createOptimizedChunks_def okChunk_def)
qed

section \<open>Proofs: the merger\<close>

lemma orZero_whole: "wholeCount x \<Longrightarrow> orZero x = Whole (countValue x)"
  by (auto simp: wholeCount_def orZero_def countValue_def split: option.splits jsNumber.splits)

lemma fold_upd_other:
  "a \<notin> set xs \<Longrightarrow> fold (\<lambda>x m. m(x \<mapsto> f x)) xs m a = m a"
  by (induction xs arbitrary: m) auto

lemma fold_upd_val:
  "a \<in> set xs \<Longrightarrow> fold (\<lambda>x m. m(x \<mapsto> f x)) xs m a = Some (f a)"
proof (induction xs arbitrary: m)
  case Nil
  then show ?case by simp
next
  case (Cons x xs)
  show ?case
  proof (cases "a \<in> set xs")
    case True
    then show ?thesis using Cons.IH by simp
  next
    case False
    then have ax: "a = x" using Cons.prems by simp
    have "fold (\<lambda>x m. m(x \<mapsto> f x)) xs (m(x \<mapsto> f x)) a = (m(x \<mapsto> f x)) a"
      using False by (rule fold_upd_other)
    then show ?thesis using ax by (simp del: fun_upd_apply) simp
  qed
qed

lemma initMerged_entry:
  "initMerged aspect = (if aspect \<in> set requiredAspects then Some (zeroEntry aspect) else None)"
  unfolding initMerged_def by (simp add: fold_upd_val fold_upd_other)

lemma mergedInv_init: "mergedInv initMerged"
  unfolding mergedInv_def
proof (intro conjI allI impI)
  show "dom initMerged = set requiredAspects"
    by (auto simp: initMerged_entry dom_def)
next
  fix a e assume "initMerged a = Some e"
  then show "m_keyword e = a"
    by (auto simp: initMerged_entry zeroEntry_def split: if_splits)
qed

lemma holdsCounts_init: "holdsCounts initMerged (\<lambda>a. 0) (\<lambda>a. 0) (\<lambda>a. 0)"
  by (simp add: holdsCounts_def initMerged_entry zeroEntry_def)

lemma mergeItem_error:
  assumes "mergedInv merged" "throwsItem item"
  shows "mergeItem merged item = Inl pushOfUndefined"
proof -
  have "merged (keyword item) = None"
    using assms by (auto simp: mergedInv_def throwsItem_def)
  then show ?thesis
    using assms(2) by (auto simp: mergeItem_def getProperty_def throwsItem_def)
qed

lemma mergeItem_inv:
  assumes "mergedInv merged" "\<not> throwsItem item"
  shows "\<exists>merged'. mergeItem merged item = Inr merged' \<and> mergedInv merged'"
proof (cases "merged (keyword item)")
  case None
  then have "keyword item \<notin> set requiredAspects"
    using assms(1) by (auto simp: mergedInv_def)
  then have "mergeItem merged item = Inr merged"
    using None assms(2) by (auto simp: mergeItem_def getProperty_def throwsItem_def)
  then show ?thesis using assms(1) by simp
next
  case (Some e)
  then have k: "keyword item \<in> set requiredAspects" "m_keyword e = keyword item"
    using assms(1) by (auto simp: mergedInv_def)
  show ?thesis
    using Some k assms(1)
    by (auto simp: mergeItem_def getProperty_def mergedInv_def)
qed

lemma mergeItem_exact:
  assumes "mergedInv merged" "\<not> throwsItem item" "wholeItem item" "holdsCounts merged p n t"
    and "\<forall>a\<in>set requiredAspects.
            \<bar>p a\<bar> + \<bar>itemCount positive a item\<bar> \<le> 2 ^ 53
          \<and> \<bar>n a\<bar> + \<bar>itemCount negative a item\<bar> \<le> 2 ^ 53
          \<and> \<bar>t a\<bar> + \<bar>itemCount total_mentions a item\<bar> \<le> 2 ^ 53"
  shows "\<exists>merged'. mergeItem merged item = Inr merged' \<and> mergedInv merged'
      \<and> holdsCounts merged' (\<lambda>a. p a + itemCount positive a item)
           (\<lambda>a. n a + itemCount negative a item) (\<lambda>a. t a + itemCount total_mentions a item)"
proof (cases "merged (keyword item)")
  case None
  then have "keyword item \<notin> set requiredAspects"
    using assms(1) by (auto simp: mergedInv_def)
  then have "\<forall>a\<in>set requiredAspects. keyword item \<noteq> a" by auto
  moreover have "mergeItem merged item = Inr merged"
    using None assms(2) \<open>keyword item \<notin> set requiredAspects\<close>
    by (auto simp: mergeItem_def getProperty_def throwsItem_def)
  ultimately show ?thesis using assms(1,4) by (simp add: itemCount_def holdsCounts_def)
next
  case (Some e)
  then have k: "keyword item \<in> set requiredAspects" "m_keyword e = keyword item"
    using assms(1) by (auto simp: mergedInv_def)
  have w: "orZero (positive item) = Whole (countValue (positive item))"
      "orZero (negative item) = Whole (countValue (negative item))"
      "orZero (total_mentions item) = Whole (countValue (total_mentions item))"
    using assms(3) k(1) by (simp_all add: wholeItem_def orZero_whole)
  have e: "m_positive e = Whole (p (keyword item))" "m_negative e = Whole (n (keyword item))"
      "m_total_mentions e = Whole (t (keyword item))"
    using assms(4) k(1) Some by (auto simp: holdsCounts_def)
  have b: "\<bar>p (keyword item)\<bar> + \<bar>countValue (positive item)\<bar> \<le> 2 ^ 53"
      "\<bar>n (keyword item)\<bar> + \<bar>countValue (negative item)\<bar> \<le> 2 ^ 53"
      "\<bar>t (keyword item)\<bar> + \<bar>countValue (total_mentions item)\<bar> \<le> 2 ^ 53"
    using assms(5) k(1) by (auto simp: itemCount_def)
  have s: "jsAdd (m_positive e) (orZero (positive item))
             = Whole (p (keyword item) + countValue (positive item))"
      "jsAdd (m_negative e) (orZero (negative item))
             = Whole (n (keyword item) + countValue (negative item))"
      "jsAdd (m_total_mentions e) (orZero (total_mentions item))
             = Whole (t (keyword item) + countValue (total_mentions item))"
    unfolding w e using b by (simp_all only: jsAdd_exact)
  have inv: "\<exists>merged'. mergeItem merged item = Inr merged' \<and> mergedInv merged'"
    using mergeItem_inv [OF assms(1,2)] .
  show ?thesis
    using Some k assms(1,4) s
    by (auto simp: mergeItem_def getProperty_def itemCount_def mergedInv_def holdsCounts_def)
qed


lemma magnitudes_nonneg: "0 \<le> (\<Sum>x\<leftarrow>xs. \<bar>g x :: int\<bar>)"
  by (rule sum_list_nonneg) auto

lemma mergeItems_error:
  assumes "mergedInv merged" "\<exists>item\<in>set items. throwsItem item"
  shows "mergeItems merged items = Inl pushOfUndefined"
  using assms
proof (induction items arbitrary: merged)
  case Nil
  then show ?case by simp
next
  case (Cons item items)
  show ?case
  proof (cases "throwsItem item")
    case True
    then show ?thesis using Cons.prems(1) by (simp add: mergeItem_error)
  next
    case False
    then obtain merged' where m: "mergeItem merged item = Inr merged'" "mergedInv merged'"
      using mergeItem_inv [OF Cons.prems(1)] by blast
    have "\<exists>item\<in>set items. throwsItem item" using Cons.prems(2) False by simp
    then have "mergeItems merged' items = Inl pushOfUndefined"
      using Cons.IH m(2) by blast
    then show ?thesis using m(1) by simp
  qed
qed

lemma mergeItems_inv:
  assumes "mergedInv merged" "\<forall>item\<in>set items. \<not> throwsItem item"
  shows "\<exists>merged'. mergeItems merged items = Inr merged' \<and> mergedInv merged'"
  using assms
proof (induction items arbitrary: merged)
  case Nil
  then show ?case by simp
next
  case (Cons item items)
  from Cons.prems obtain m1 where m1: "mergeItem merged item = Inr m1" "mergedInv m1"
    using mergeItem_inv [of merged item] by auto
  from Cons.IH [OF m1(2)] Cons.prems(2) obtain m2 where
    m2: "mergeItems m1 items = Inr m2" "mergedInv m2"
    by auto
  show ?case using m1(1) m2 by simp
qed

lemma mergeItems_exact:
  assumes "mergedInv merged" "\<forall>item\<in>set items. \<not> throwsItem item"
    "\<forall>item\<in>set items. wholeItem item" "holdsCounts merged p n t"
    and "\<forall>a\<in>set requiredAspects.
            \<bar>p a\<bar> + (\<Sum>item\<leftarrow>items. \<bar>itemCount positive a item\<bar>) \<le> 2 ^ 53
          \<and> \<bar>n a\<bar> + (\<Sum>item\<leftarrow>items. \<bar>itemCount negative a item\<bar>) \<le> 2 ^ 53
          \<and> \<bar>t a\<bar> + (\<Sum>item\<leftarrow>items. \<bar>itemCount total_mentions a item\<bar>) \<le> 2 ^ 53"
  shows "\<exists>merged'. mergeItems merged items = Inr merged' \<and> mergedInv merged'
      \<and> holdsCounts merged'
            (\<lambda>a. p a + (\<Sum>item\<leftarrow>items. itemCount positive a item))
            (\<lambda>a. n a + (\<Sum>item\<leftarrow>items. itemCount negative a item))
            (\<lambda>a. t a + (\<Sum>item\<leftarrow>items. itemCount total_mentions a item))"
  using assms
proof (induction items arbitrary: merged p n t)
  case Nil
  then show ?case by simp
next
  case (Cons item items)
  have nn: "0 \<le> (\<Sum>item\<leftarrow>items. \<bar>itemCount field a item\<bar>)" for field a
    by (rule magnitudes_nonneg)
  have b1: "\<forall>a\<in>set requiredAspects.
            \<bar>p a\<bar> + \<bar>itemCount positive a item\<bar> \<le> 2 ^ 53
          \<and> \<bar>n a\<bar> + \<bar>itemCount negative a item\<bar> \<le> 2 ^ 53
          \<and> \<bar>t a\<bar> + \<bar>itemCount total_mentions a item\<bar> \<le> 2 ^ 53"
  proof
    fix a assume a: "a \<in> set requiredAspects"
    show "\<bar>p a\<bar> + \<bar>itemCount positive a item\<bar> \<le> 2 ^ 53
          \<and> \<bar>n a\<bar> + \<bar>itemCount negative a item\<bar> \<le> 2 ^ 53
          \<and> \<bar>t a\<bar> + \<bar>itemCount total_mentions a item\<bar> \<le> 2 ^ 53"
      using Cons.prems(5) a nn [of positive a] nn [of negative a] nn [of total_mentions a]
      by fastforce
  qed
  from Cons.prems have "mergedInv merged" "\<not> throwsItem item" "wholeItem item"
    "holdsCounts merged p n t" by simp_all
  from mergeItem_exact [OF this b1] obtain m1 where
    m1: "mergeItem merged item = Inr m1" "mergedInv m1"
      "holdsCounts m1 (\<lambda>a. p a + itemCount positive a item)
           (\<lambda>a. n a + itemCount negative a item) (\<lambda>a. t a + itemCount total_mentions a item)"
    by blast
  have b2: "\<forall>a\<in>set requiredAspects.
        \<bar>p a + itemCount positive a item\<bar>
          + (\<Sum>item\<leftarrow>items. \<bar>itemCount positive a item\<bar>) \<le> 2 ^ 53
      \<and> \<bar>n a + itemCount negative a item\<bar>
          + (\<Sum>item\<leftarrow>items. \<bar>itemCount negative a item\<bar>) \<le> 2 ^ 53
      \<and> \<bar>t a + itemCount total_mentions a item\<bar>
          + (\<Sum>item\<leftarrow>items. \<bar>itemCount total_mentions a item\<bar>) \<le> 2 ^ 53"
  proof
    fix a assume a: "a \<in> set requiredAspects"
    show "\<bar>p a + itemCount positive a item\<bar>
          + (\<Sum>item\<leftarrow>items. \<bar>itemCount positive a item\<bar>) \<le> 2 ^ 53
      \<and> \<bar>n a + itemCount negative a item\<bar>
          + (\<Sum>item\<leftarrow>items. \<bar>itemCount negative a item\<bar>) \<le> 2 ^ 53
      \<and> \<bar>t a + itemCount total_mentions a item\<bar>
          + (\<Sum>item\<leftarrow>items. \<bar>itemCount total_mentions a item\<bar>) \<le> 2 ^ 53"
      using Cons.prems(5) a by fastforce
  qed
  have r: "\<forall>item\<in>set items. \<not> throwsItem item" "\<forall>item\<in>set items. wholeItem item"
    using Cons.prems by simp_all
  from Cons.IH [OF m1(2) r m1(3) b2] obtain m2 where
    m2: "mergeItems m1 items = Inr m2" "mergedInv m2"
      "holdsCounts m2
         (\<lambda>a. p a + itemCount positive a item + (\<Sum>item\<leftarrow>items. itemCount positive a item))
         (\<lambda>a. n a + itemCount negative a item + (\<Sum>item\<leftarrow>items. itemCount negative a item))
         (\<lambda>a. t a + itemCount total_mentions a item
                + (\<Sum>item\<leftarrow>items. itemCount total_mentions a item))"
    by blast
  have "mergeItems merged (item # items) = Inr m2" using m1(1) m2(1) by simp
  moreover have "holdsCounts m2
            (\<lambda>a. p a + (\<Sum>item\<leftarrow>(item # items). itemCount positive a item))
            (\<lambda>a. n a + (\<Sum>item\<leftarrow>(item # items). itemCount negative a item))
            (\<lambda>a. t a + (\<Sum>item\<leftarrow>(item # items). itemCount total_mentions a item))"
    using m2(3) by (simp add: holdsCounts_def add.assoc)
  ultimately show ?case using m2(2) by blast
qed

lemma chunkCount_Some: "chunkCount field a (Some items) = (\<Sum>item\<leftarrow>items. itemCount field a item)"
  by (simp add: chunkCount_def)

lemma chunkMagnitude_Some:
  "chunkMagnitude field a (Some items) = (\<Sum>item\<leftarrow>items. \<bar>itemCount field a item\<bar>)"
  by (simp add: chunkMagnitude_def)

lemma chunkMagnitude_nonneg: "0 \<le> chunkMagnitude field a c"
  by (cases c) (simp_all add: chunkMagnitude_def magnitudes_nonneg)

lemma chunkMagnitudes_nonneg: "0 \<le> (\<Sum>c\<leftarrow>chunks. chunkMagnitude field a c)"
  by (rule sum_list_nonneg) (auto simp: chunkMagnitude_nonneg)

lemma sum_list_magnitude: "\<bar>\<Sum>x\<leftarrow>xs. g x :: int\<bar> \<le> (\<Sum>x\<leftarrow>xs. \<bar>g x\<bar>)"
  by (induction xs) auto

lemma chunkCount_le_magnitude: "\<bar>chunkCount field a c\<bar> \<le> chunkMagnitude field a c"
  by (cases c) (simp_all add: chunkCount_def chunkMagnitude_def sum_list_magnitude)

lemma mergeChunks_error:
  assumes "mergedInv merged" "\<exists>c\<in>set chunks. throwsChunk c"
  shows "mergeChunks merged chunks = Inl pushOfUndefined"
  using assms
proof (induction merged chunks rule: mergeChunks.induct)
  case (1 merged)
  then show ?case by simp
next
  case (2 merged chunks)
  then show ?case by (simp add: throwsChunk_def)
next
  case (3 merged chunkKeywords chunks)
  show ?case
  proof (cases "\<exists>item\<in>set chunkKeywords. throwsItem item")
    case True
    then show ?thesis using mergeItems_error [OF "3.prems"(1)] by simp
  next
    case False
    then obtain m1 where m1: "mergeItems merged chunkKeywords = Inr m1" "mergedInv m1"
      using mergeItems_inv [OF "3.prems"(1), of chunkKeywords] by blast
    have "\<exists>c\<in>set chunks. throwsChunk c"
      using "3.prems"(2) False by (simp add: throwsChunk_def)
    then have "mergeChunks m1 chunks = Inl pushOfUndefined"
      using "3.IH" m1 by blast
    then show ?thesis using m1(1) by simp
  qed
qed

lemma mergeChunks_inv:
  assumes "mergedInv merged" "\<forall>c\<in>set chunks. \<not> throwsChunk c"
  shows "\<exists>merged'. mergeChunks merged chunks = Inr merged' \<and> mergedInv merged'"
  using assms
proof (induction merged chunks rule: mergeChunks.induct)
  case (1 merged)
  then show ?case by simp
next
  case (2 merged chunks)
  then show ?case by simp
next
  case (3 merged chunkKeywords chunks)
  have "\<forall>item\<in>set chunkKeywords. \<not> throwsItem item"
    using "3.prems"(2) by (simp add: throwsChunk_def)
  then obtain m1 where m1: "mergeItems merged chunkKeywords = Inr m1" "mergedInv m1"
    using mergeItems_inv [OF "3.prems"(1), of chunkKeywords] by blast
  from "3.IH" [OF m1(1) m1(2)] "3.prems"(2) obtain m2 where
    m2: "mergeChunks m1 chunks = Inr m2" "mergedInv m2"
    by auto
  show ?case using m1(1) m2 by simp
qed

lemma mergeChunks_exact:
  assumes "mergedInv merged" "\<forall>c\<in>set chunks. \<not> throwsChunk c"
    "\<forall>c\<in>set chunks. wholeChunk c" "holdsCounts merged p n t"
    and "\<forall>a\<in>set requiredAspects.
            \<bar>p a\<bar> + (\<Sum>c\<leftarrow>chunks. chunkMagnitude positive a c) \<le> 2 ^ 53
          \<and> \<bar>n a\<bar> + (\<Sum>c\<leftarrow>chunks. chunkMagnitude negative a c) \<le> 2 ^ 53
          \<and> \<bar>t a\<bar> + (\<Sum>c\<leftarrow>chunks. chunkMagnitude total_mentions a c) \<le> 2 ^ 53"
  shows "\<exists>merged'. mergeChunks merged chunks = Inr merged' \<and> mergedInv merged'
      \<and> holdsCounts merged'
            (\<lambda>a. p a + (\<Sum>c\<leftarrow>chunks. chunkCount positive a c))
            (\<lambda>a. n a + (\<Sum>c\<leftarrow>chunks. chunkCount negative a c))
            (\<lambda>a. t a + (\<Sum>c\<leftarrow>chunks. chunkCount total_mentions a c))"
  using assms
proof (induction merged chunks arbitrary: p n t rule: mergeChunks.induct)
  case (1 merged)
  then show ?case by simp
next
  case (2 merged chunks)
  then show ?case by (simp add: chunkCount_def chunkMagnitude_def)
next
  case (3 merged chunkKeywords chunks)
  have nn: "0 \<le> (\<Sum>c\<leftarrow>chunks. chunkMagnitude field a c)" for field a
    by (rule chunkMagnitudes_nonneg)
  have i: "\<forall>item\<in>set chunkKeywords. \<not> throwsItem item"
      "\<forall>item\<in>set chunkKeywords. wholeItem item"
    using "3.prems"(2,3) by (simp_all add: throwsChunk_def wholeChunk_def)
  have b1: "\<forall>a\<in>set requiredAspects.
            \<bar>p a\<bar> + (\<Sum>item\<leftarrow>chunkKeywords. \<bar>itemCount positive a item\<bar>) \<le> 2 ^ 53
          \<and> \<bar>n a\<bar> + (\<Sum>item\<leftarrow>chunkKeywords. \<bar>itemCount negative a item\<bar>) \<le> 2 ^ 53
          \<and> \<bar>t a\<bar> + (\<Sum>item\<leftarrow>chunkKeywords. \<bar>itemCount total_mentions a item\<bar>) \<le> 2 ^ 53"
  proof
    fix a assume a: "a \<in> set requiredAspects"
    show "\<bar>p a\<bar> + (\<Sum>item\<leftarrow>chunkKeywords. \<bar>itemCount positive a item\<bar>) \<le> 2 ^ 53
          \<and> \<bar>n a\<bar> + (\<Sum>item\<leftarrow>chunkKeywords. \<bar>itemCount negative a item\<bar>) \<le> 2 ^ 53
          \<and> \<bar>t a\<bar> + (\<Sum>item\<leftarrow>chunkKeywords. \<bar>itemCount total_mentions a item\<bar>) \<le> 2 ^ 53"
      using "3.prems"(5) a nn [of positive a] nn [of negative a] nn [of total_mentions a]
      by (fastforce simp: chunkMagnitude_Some)
  qed
  from mergeItems_exact [OF "3.prems"(1) i "3.prems"(4) b1] obtain m1 where
    m1: "mergeItems merged chunkKeywords = Inr m1" "mergedInv m1"
      "holdsCounts m1
            (\<lambda>a. p a + chunkCount positive a (Some chunkKeywords))
            (\<lambda>a. n a + chunkCount negative a (Some chunkKeywords))
            (\<lambda>a. t a + chunkCount total_mentions a (Some chunkKeywords))"
    unfolding chunkCount_Some by blast
  have b2: "\<forall>a\<in>set requiredAspects.
        \<bar>p a + chunkCount positive a (Some chunkKeywords)\<bar>
          + (\<Sum>c\<leftarrow>chunks. chunkMagnitude positive a c) \<le> 2 ^ 53
      \<and> \<bar>n a + chunkCount negative a (Some chunkKeywords)\<bar>
          + (\<Sum>c\<leftarrow>chunks. chunkMagnitude negative a c) \<le> 2 ^ 53
      \<and> \<bar>t a + chunkCount total_mentions a (Some chunkKeywords)\<bar>
          + (\<Sum>c\<leftarrow>chunks. chunkMagnitude total_mentions a c) \<le> 2 ^ 53"
  proof
    fix a assume a: "a \<in> set requiredAspects"
    show "\<bar>p a + chunkCount positive a (Some chunkKeywords)\<bar>
          + (\<Sum>c\<leftarrow>chunks. chunkMagnitude positive a c) \<le> 2 ^ 53
      \<and> \<bar>n a + chunkCount negative a (Some chunkKeywords)\<bar>
          + (\<Sum>c\<leftarrow>chunks. chunkMagnitude negative a c) \<le> 2 ^ 53
      \<and> \<bar>t a + chunkCount total_mentions a (Some chunkKeywords)\<bar>
          + (\<Sum>c\<leftarrow>chunks. chunkMagnitude total_mentions a c) \<le> 2 ^ 53"
      using "3.prems"(5) a
        chunkCount_le_magnitude [of positive a "Some chunkKeywords"]
        chunkCount_le_magnitude [of negative a "Some chunkKeywords"]
        chunkCount_le_magnitude [of total_mentions a "Some chunkKeywords"]
      by fastforce
  qed
  have r: "\<forall>c\<in>set chunks. \<not> throwsChunk c" "\<forall>c\<in>set chunks. wholeChunk c"
    using "3.prems"(2,3) by simp_all
  from "3.IH" [OF m1(1) m1(2) r m1(3) b2] obtain m2 where
    m2: "mergeChunks m1 chunks = Inr m2" "mergedInv m2"
      "holdsCounts m2
         (\<lambda>a. p a + chunkCount positive a (Some chunkKeywords)
                + (\<Sum>c\<leftarrow>chunks. chunkCount positive a c))
         (\<lambda>a. n a + chunkCount negative a (Some chunkKeywords)
                + (\<Sum>c\<leftarrow>chunks. chunkCount negative a c))
         (\<lambda>a. t a + chunkCount total_mentions a (Some chunkKeywords)
                + (\<Sum>c\<leftarrow>chunks. chunkCount total_mentions a c))"
    by blast
  have "mergeChunks merged (Some chunkKeywords # chunks) = Inr m2" using m1(1) m2(1) by simp
  moreover have "holdsCounts m2
            (\<lambda>a. p a + (\<Sum>c\<leftarrow>(Some chunkKeywords # chunks). chunkCount positive a c))
            (\<lambda>a. n a + (\<Sum>c\<leftarrow>(Some chunkKeywords # chunks). chunkCount negative a c))
            (\<lambda>a. t a + (\<Sum>c\<leftarrow>(Some chunkKeywords # chunks). chunkCount total_mentions a c))"
    using m2(3) by (simp add: holdsCounts_def add.assoc)
  ultimately show ?case using m2(2) by blast
qed


lemma limitSnippets_ok:
  assumes "mergedInv merged" "set aspects \<subseteq> set requiredAspects"
  shows "\<exists>result. limitSnippets merged aspects = Inr result
      \<and> map aspectCounts result =
          map (\<lambda>a. (a, m_positive (the (merged a)), m_negative (the (merged a)),
                     m_total_mentions (the (merged a)))) aspects
      \<and> (\<forall>e\<in>set result. length (m_positive_snippets e) \<le> 10 \<and> length (m_negative_snippets e) \<le> 10)"
  using assms(2)
proof (induction aspects)
  case Nil
  then show ?case by simp
next
  case (Cons a aspects)
  then have "a \<in> dom merged" using assms(1) by (simp add: mergedInv_def)
  then obtain data where d: "merged a = Some data" by blast
  then have k: "m_keyword data = a" using assms(1) by (simp add: mergedInv_def)
  from Cons obtain result where r: "limitSnippets merged aspects = Inr result"
     "map aspectCounts result =
          map (\<lambda>a. (a, m_positive (the (merged a)), m_negative (the (merged a)),
                     m_total_mentions (the (merged a)))) aspects"
     "\<forall>e\<in>set result. length (m_positive_snippets e) \<le> 10 \<and> length (m_negative_snippets e) \<le> 10"
    by auto
  have "aspectCounts (data\<lparr>m_positive_snippets := take 10 (m_positive_snippets data),
                         m_negative_snippets := take 10 (m_negative_snippets data)\<rparr>)
        = (a, m_positive data, m_negative data, m_total_mentions data)"
    using k by (simp add: aspectCounts_def)
  then show ?case using d r by simp
qed

lemma mergeKeywordAnalysis_error:
  assumes "\<exists>c\<in>set chunks. throwsChunk c"
  shows "mergeKeywordAnalysis chunks = Inl pushOfUndefined"
  using mergeChunks_error [OF mergedInv_init assms] by (simp add: mergeKeywordAnalysis_def)

text \<open>
  When no element raises and every addition is exact, the counts returned are the exact
  sums, and no snippet list has more than ten entries.
\<close>

lemma mergeKeywordAnalysis_ok:
  assumes "\<forall>c\<in>set chunks. \<not> throwsChunk c" "exactCounts chunks"
  shows "\<exists>result. mergeKeywordAnalysis chunks = Inr result
     \<and> map aspectCounts result = mergedCounts chunks
     \<and> (\<forall>e\<in>set result. length (m_positive_snippets e) \<le> 10 \<and> length (m_negative_snippets e) \<le> 10)"
proof -
  have w: "\<forall>c\<in>set chunks. wholeChunk c" using assms(2) by (simp add: exactCounts_def)
  have b: "\<forall>a\<in>set requiredAspects.
            \<bar>0 :: int\<bar> + (\<Sum>c\<leftarrow>chunks. chunkMagnitude positive a c) \<le> 2 ^ 53
          \<and> \<bar>0 :: int\<bar> + (\<Sum>c\<leftarrow>chunks. chunkMagnitude negative a c) \<le> 2 ^ 53
          \<and> \<bar>0 :: int\<bar> + (\<Sum>c\<leftarrow>chunks. chunkMagnitude total_mentions a c) \<le> 2 ^ 53"
    using assms(2) by (simp add: exactCounts_def)
  from mergeChunks_exact [OF mergedInv_init assms(1) w holdsCounts_init b] obtain merged where
    m: "mergeChunks initMerged chunks = Inr merged" "mergedInv merged"
       "holdsCounts merged
            (\<lambda>a. 0 + (\<Sum>c\<leftarrow>chunks. chunkCount positive a c))
            (\<lambda>a. 0 + (\<Sum>c\<leftarrow>chunks. chunkCount negative a c))
            (\<lambda>a. 0 + (\<Sum>c\<leftarrow>chunks. chunkCount total_mentions a c))"
    by blast
  from limitSnippets_ok [OF m(2) subset_refl] obtain result where
    r: "limitSnippets merged requiredAspects = Inr result"
       "map aspectCounts result =
          map (\<lambda>a. (a, m_positive (the (merged a)), m_negative (the (merged a)),
                     m_total_mentions (the (merged a)))) requiredAspects"
       "\<forall>e\<in>set result. length (m_positive_snippets e) \<le> 10 \<and> length (m_negative_snippets e) \<le> 10"
    by blast
  have "map aspectCounts result = mergedCounts chunks"
    unfolding r(2) mergedCounts_def using m(3)
    by (simp add: holdsCounts_def)
  then show ?thesis using m(1) r(1,3) by (simp add: mergeKeywordAnalysis_def)
qed

lemma sum_list_perm:
  assumes "mset chunks' = mset chunks"
  shows "(\<Sum>c\<leftarrow>chunks'. g c) = (\<Sum>c\<leftarrow>chunks. g c :: int)"
proof -
  have "mset (map g chunks') = mset (map g chunks)" using assms by (metis mset_map)
  then show ?thesis by (metis sum_mset_sum_list)
qed

lemma mergedCounts_perm:
  assumes "mset chunks' = mset chunks"
  shows "mergedCounts chunks' = mergedCounts chunks"
  by (simp add: mergedCounts_def sum_list_perm [OF assms])

lemma exactCounts_perm:
  assumes "mset chunks' = mset chunks" "exactCounts chunks"
  shows "exactCounts chunks'"
proof -
  have "set chunks' = set chunks" using assms(1) by (rule mset_eq_setD)
  then show ?thesis
    using assms(2) by (simp add: exactCounts_def sum_list_perm [OF assms(1)])
qed

text \<open>
  When no element raises, the returned array has exactly the nine aspects as its keywords,
  in the order of \<^const>\<open>requiredAspects\<close>, whatever the chunks mention.
\<close>

lemma mergeKeywordAnalysis_aspects:
  assumes "\<forall>c\<in>set chunks. \<not> throwsChunk c"
  shows "\<exists>result. mergeKeywordAnalysis chunks = Inr result
     \<and> map m_keyword result = requiredAspects"
proof -
  from mergeChunks_inv [OF mergedInv_init assms] obtain merged where
    m: "mergeChunks initMerged chunks = Inr merged" "mergedInv merged"
    by blast
  from limitSnippets_ok [OF m(2) subset_refl] obtain result where
    r: "limitSnippets merged requiredAspects = Inr result"
       "map aspectCounts result =
          map (\<lambda>a. (a, m_positive (the (merged a)), m_negative (the (merged a)),
                     m_total_mentions (the (merged a)))) requiredAspects"
    by blast
  have "map fst (map aspectCounts result) = requiredAspects"
    unfolding r(2) by (simp add: comp_def)
  moreover have "map fst (map aspectCounts result) = map m_keyword result"
    by (simp add: aspectCounts_def comp_def)
  ultimately show ?thesis using m(1) r(1) by (simp add: mergeKeywordAnalysis_def)
qed

text \<open>The example of the specification: Cleanliness is merged to \<open>+3/-1\<close>.\<close>

lemma mergeKeywordAnalysis_example:
  "map_sum id (map aspectCounts) (mergeKeywordAnalysis [chunkA, chunkB, chunkC]) =
   Inr [(''Cleanliness'', Whole 3, Whole 1, Whole 4), (''Location'', Whole 1, Whole 0, Whole 1),
        (''HostCommunication'', Whole 0, Whole 0, Whole 0),
        (''ValueForMoney'', Whole 0, Whole 0, Whole 0),
        (''AccuracyOfListing'', Whole 0, Whole 0, Whole 0),
        (''CheckInProcess'', Whole 0, Whole 0, Whole 0),
        (''NoiseLevels'', Whole 0, Whole 0, Whole 0), (''Comfort'', Whole 0, Whole 0, Whole 0),
        (''Amenities'', Whole 0, Whole 0, Whole 0)]"
  by (simp add: mergeKeywordAnalysis_def initMerged_def requiredAspects_def chunkA_def
        chunkB_def chunkC_def mergeItem_def getProperty_def zeroEntry_def orZero_def
        aspectCounts_def toDouble_exact)

text \<open>
  Claim C4 (aspect completeness of \<^verbatim>\<open>mergeKeywordAnalysis\<close>) at a chunk whose single element
  has the keyword \<^verbatim>\<open>constructor\<close>, a keyword outside the enumeration. The guard
  \<^verbatim>\<open>if (merged[item.keyword])\<close> finds the inherited \<^verbatim>\<open>Object\<close> function, the element is not
  skipped, and \<^verbatim>\<open>merged[item.keyword].positive_snippets.push\<close> raises a \<^verbatim>\<open>TypeError\<close>: the
  function returns no array at all.
\<close>

theorem mergeKeywordAnalysis_inherited_keyword:
  "mergeKeywordAnalysis
     [Some [\<lparr>keyword = ''constructor'', positive = Some (Whole 1), negative = Some (Whole 0),
             total_mentions = Some (Whole 1), positive_snippets = Some [''Well built''],
             negative_snippets = Some []\<rparr>]]
   = Inl pushOfUndefined"
  by (simp add: mergeKeywordAnalysis_def initMerged_def requiredAspects_def
        mergeItem_def getProperty_def objectPrototypeKeys_def)

theorem mergeKeywordAnalysis_inherited_keyword_witness:
  "isl (mergeKeywordAnalysis
     [Some [\<lparr>keyword = ''constructor'', positive = Some (Whole 1), negative = Some (Whole 0),
             total_mentions = Some (Whole 1), positive_snippets = Some [''Well built''],
             negative_snippets = Some []\<rparr>]])"
  using mergeKeywordAnalysis_inherited_keyword by simp

text \<open>
  Claim C10 (fold commutativity), amended. Take a list of per-chunk keyword-analysis arrays
  in which the counts given for the nine aspects are whole numbers whose magnitudes, for
  each aspect and each of \<^verbatim>\<open>positive\<close>, \<^verbatim>\<open>negative\<close> and \<^verbatim>\<open>total_mentions\<close>, add up to \<open>2^53\<close>
  at most (\<^const>\<open>exactCounts\<close>). Then \<^verbatim>\<open>mergeKeywordAnalysis\<close> has the same outcome on the
  list and on every permutation of it as far as the counts go: either both calls raise, or
  both return, aspect by aspect, the same three sums. The snippet lists are left out of the
  comparison. Without the condition the sums depend on the order, since \<^verbatim>\<open>+=\<close> rounds.
\<close>

theorem merge_order_independent:
  assumes "mset chunks' = mset chunks" "exactCounts chunks"
  shows "map_sum id (map aspectCounts) (mergeKeywordAnalysis chunks')
       = map_sum id (map aspectCounts) (mergeKeywordAnalysis chunks)"
proof -
  have s: "set chunks' = set chunks" using assms(1) by (rule mset_eq_setD)
  have e: "exactCounts chunks'" using assms by (rule exactCounts_perm)
  show ?thesis
  proof (cases "\<exists>c\<in>set chunks. throwsChunk c")
    case True
    then show ?thesis using s by (simp add: mergeKeywordAnalysis_error)
  next
    case False
    then have a: "\<forall>c\<in>set chunks. \<not> throwsChunk c" and b: "\<forall>c\<in>set chunks'. \<not> throwsChunk c"
      using s by auto
    from mergeKeywordAnalysis_ok [OF a assms(2)] mergeKeywordAnalysis_ok [OF b e]
    show ?thesis using mergedCounts_perm [OF assms(1)] by auto
  qed
qed

theorem merge_order_independent_witness:
  "mset [chunkC, chunkB, chunkA] = mset [chunkA, chunkB, chunkC]
   \<and> exactCounts [chunkA, chunkB, chunkC]
   \<and> map_sum id (map aspectCounts) (mergeKeywordAnalysis [chunkC, chunkB, chunkA])
     = map_sum id (map aspectCounts) (mergeKeywordAnalysis [chunkA, chunkB, chunkC])"
proof -
  have h: "mset [chunkC, chunkB, chunkA] = mset [chunkA, chunkB, chunkC]" by simp
  have e: "exactCounts [chunkA, chunkB, chunkC]"
    by (simp add: exactCounts_def wholeChunk_def wholeItem_def wholeCount_def
          chunkMagnitude_def itemCount_def countValue_def requiredAspects_def chunkA_def
          chunkB_def chunkC_def)
  show ?thesis using h e merge_order_independent [OF h e] by simp
qed

text \<open>
  The claim as the specification words it, for every list, fails: three chunks that report
  \<open>2^53\<close>, \<open>1\<close> and \<open>1\<close> positive mentions of Cleanliness are merged to
  \<open>9007199254740992\<close> in this order (each \<open>1\<close> is lost to rounding) and to
  \<open>9007199254740994\<close> when the large count comes last.
\<close>

theorem merge_order_independent_counterexample:
  "mset [cleanChunk 1, cleanChunk 1, cleanChunk 9007199254740992]
     = mset [cleanChunk 9007199254740992, cleanChunk 1, cleanChunk 1]
   \<and> cleanlinessPositive
       (mergeKeywordAnalysis [cleanChunk 9007199254740992, cleanChunk 1, cleanChunk 1])
     = Some (Whole 9007199254740992)
   \<and> cleanlinessPositive
       (mergeKeywordAnalysis [cleanChunk 1, cleanChunk 1, cleanChunk 9007199254740992])
     = Some (Whole 9007199254740994)"
proof -
  have r: "toDouble 9007199254740992 = Whole 9007199254740992"
      "toDouble 9007199254740993 = Whole 9007199254740992"
      "toDouble 9007199254740994 = Whole 9007199254740994"
      "toDouble 1 = Whole 1" "toDouble 2 = Whole 2"
    by (simp_all add: toDouble_def roundNat_def bitLength.simps Let_def)
  have a: "cleanlinessPositive
       (mergeKeywordAnalysis [cleanChunk 9007199254740992, cleanChunk 1, cleanChunk 1])
     = Some (Whole 9007199254740992)"
    by (simp add: mergeKeywordAnalysis_def initMerged_def requiredAspects_def cleanChunk_def
          mergeItem_def getProperty_def zeroEntry_def orZero_def cleanlinessPositive_def r)
  have b: "cleanlinessPositive
       (mergeKeywordAnalysis [cleanChunk 1, cleanChunk 1, cleanChunk 9007199254740992])
     = Some (Whole 9007199254740994)"
    by (simp add: mergeKeywordAnalysis_def initMerged_def requiredAspects_def cleanChunk_def
          mergeItem_def getProperty_def zeroEntry_def orZero_def cleanlinessPositive_def r)
  show ?thesis using a b by simp
qed

section \<open>Proofs: the collector\<close>

subsection \<open>Bounds on the two loops\<close>

lemma mainLoop_counters:
  "attempts s \<le> maxAttempts \<Longrightarrow>
     attempts (mainLoop doc s) \<le> maxAttempts
   \<and> finalPasses (mainLoop doc s) = finalPasses s
   \<and> passes (mainLoop doc s) + attempts s = passes s + attempts (mainLoop doc s)"
proof (induction doc s rule: mainLoop.induct)
  case (1 doc s)
  show ?case
  proof (cases "length (allReviews s) < 100 \<and> attempts s < maxAttempts
           \<and> consecutiveNoNewReviews s < 10")
    case False
    then have "mainLoop doc s = s" by (subst mainLoop.simps) auto
    then show ?thesis using "1.prems" by simp
  next
    case guard: True
    show ?thesis
    proof (cases "loopBody doc s")
      case (Continue s')
      have s': "attempts s' = attempts s + 1" "finalPasses s' = finalPasses s"
          "passes s' = passes s + 1"
        using Continue by (auto simp: loopBody_def Let_def split: if_splits)
      then have "attempts s' \<le> maxAttempts" using guard by simp
      moreover have "mainLoop doc s = mainLoop doc s'"
        using guard Continue by (subst mainLoop.simps) simp
      ultimately show ?thesis using "1.IH" [OF guard Continue] s' by simp
    next
      case (Break s')
      have s': "attempts s' = attempts s + 1" "finalPasses s' = finalPasses s"
          "passes s' = passes s + 1"
        using Break by (auto simp: loopBody_def Let_def split: if_splits)
      have "mainLoop doc s = s'"
        using guard Break by (subst mainLoop.simps) simp
      then show ?thesis using guard s' by simp
    qed
  qed
qed

lemma finalLoop_counters:
  "finalAttempt \<le> 8 \<Longrightarrow>
     attempts (finalLoop doc s finalAttempt) = attempts s
   \<and> finalPasses (finalLoop doc s finalAttempt) + finalAttempt \<le> finalPasses s + 8
   \<and> passes (finalLoop doc s finalAttempt) + finalPasses s
       = passes s + finalPasses (finalLoop doc s finalAttempt)"
proof (induction doc s finalAttempt rule: finalLoop.induct)
  case (1 doc s finalAttempt)
  show ?case
  proof (cases "finalAttempt < 8 \<and> length (allReviews s) < 95")
    case False
    then have "finalLoop doc s finalAttempt = s" by (subst finalLoop.simps) auto
    then show ?thesis using "1.prems" by simp
  next
    case guard: True
    show ?thesis
    proof (cases "finalBody doc s finalAttempt")
      case (Continue s')
      have s': "attempts s' = attempts s" "finalPasses s' = finalPasses s + 1"
          "passes s' = passes s + 1"
        using Continue by (auto simp: finalBody_def Let_def split: if_splits)
      have "finalAttempt + 1 \<le> 8" using guard by simp
      moreover have "finalLoop doc s finalAttempt = finalLoop doc s' (finalAttempt + 1)"
        using guard Continue by (subst finalLoop.simps) simp
      ultimately show ?thesis using "1.IH" [OF guard Continue] s' by simp
    next
      case (Break s')
      have s': "attempts s' = attempts s" "finalPasses s' = finalPasses s + 1"
          "passes s' = passes s + 1"
        using Break by (auto simp: finalBody_def Let_def split: if_splits)
      have "finalLoop doc s finalAttempt = s'"
        using guard Break by (subst finalLoop.simps) simp
      then show ?thesis using guard s' by simp
    qed
  qed
qed

text \<open>
  Claim C2 (termination of the collector). \<^const>\<open>mainLoop\<close> and \<^const>\<open>finalLoop\<close> are total
  functions of the page, whatever the page returns: their definitions come with a
  termination proof, the measure being the number of attempts left. For every page the
  \<^verbatim>\<open>while\<close> loop runs at most 30 times (\<^verbatim>\<open>attempts\<close> goes up by one in each iteration, so it
  counts them), the final push makes at most 8 passes, and \<^verbatim>\<open>extractReviewsFromDOM\<close> is
  called once in each of these iterations and nowhere else.
\<close>

theorem collector_terminates:
  "attempts (runCollector doc) \<le> 30
   \<and> finalPasses (runCollector doc) \<le> 8
   \<and> passes (runCollector doc) = attempts (runCollector doc) + finalPasses (runCollector doc)"
proof -
  let ?s = "mainLoop doc initCollector"
  have m: "attempts ?s \<le> maxAttempts" "finalPasses ?s = 0" "passes ?s = attempts ?s"
    using mainLoop_counters [of initCollector doc] by (simp_all add: initCollector_def)
  show ?thesis
  proof (cases "length (allReviews ?s) \<ge> 50 \<and> length (allReviews ?s) < 95")
    case True
    then have "runCollector doc = finalLoop doc ?s 0" by (simp add: runCollector_def)
    then show ?thesis
      using finalLoop_counters [of 0 doc ?s] m by (simp add: maxAttempts_def)
  next
    case False
    then have "runCollector doc = ?s" by (auto simp: runCollector_def)
    then show ?thesis using m by (simp add: maxAttempts_def)
  qed
qed


text \<open>On a page that never yields a record the run ends after ten iterations.\<close>

theorem collector_terminates_witness:
  "attempts (runCollector silentPage) = 10
   \<and> finalPasses (runCollector silentPage) = 0
   \<and> passes (runCollector silentPage) = 10
   \<and> collectReviewsWithScrolling silentPage = []"
  using collector_terminates [of silentPage]
  by (simp add: collectReviewsWithScrolling_def runCollector_def mainLoop.simps loopBody_def
        silentPage_def initCollector_def maxAttempts_def)

text \<open>
  The \<^verbatim>\<open>break\<close> of the final push is always taken in the iteration with
  \<^verbatim>\<open>finalAttempt = 6\<close>, since \<^verbatim>\<open>reviewsBeforePush\<close> is read in the iteration that sets it; so
  the final push makes at most seven passes.
\<close>

lemma finalLoop_seven:
  "finalAttempt \<le> 6 \<Longrightarrow>
     finalPasses (finalLoop doc s finalAttempt) + finalAttempt \<le> finalPasses s + 7"
proof (induction doc s finalAttempt rule: finalLoop.induct)
  case (1 doc s finalAttempt)
  show ?case
  proof (cases "finalAttempt < 8 \<and> length (allReviews s) < 95")
    case False
    then have "finalLoop doc s finalAttempt = s" by (subst finalLoop.simps) auto
    then show ?thesis using "1.prems" by simp
  next
    case guard: True
    show ?thesis
    proof (cases "finalBody doc s finalAttempt")
      case (Continue s')
      then have s': "finalPasses s' = finalPasses s + 1" "finalAttempt \<noteq> 6"
        by (auto simp: finalBody_def Let_def split: if_splits)
      then have "finalAttempt + 1 \<le> 6" using "1.prems" by simp
      moreover have "finalLoop doc s finalAttempt = finalLoop doc s' (finalAttempt + 1)"
        using guard Continue by (subst finalLoop.simps) simp
      ultimately show ?thesis using "1.IH" [OF guard Continue] s' by simp
    next
      case (Break s')
      then have s': "finalPasses s' = finalPasses s + 1"
        by (auto simp: finalBody_def Let_def split: if_splits)
      have "finalLoop doc s finalAttempt = s'"
        using guard Break by (subst finalLoop.simps) simp
      then show ?thesis using "1.prems" s' by simp
    qed
  qed
qed

subsection \<open>No duplicates, and growth only\<close>

lemma isDuplicate_iff:
  "list_ex (\<lambda>existing. name existing = name review \<and> reviewText existing = reviewText review) acc
   \<longleftrightarrow> reviewKey review \<in> set (map reviewKey acc)"
  by (induction acc) (auto simp: reviewKey_def)

lemma mergeNew_prefix: "prefix acc (mergeNew acc currentReviews)"
proof (induction currentReviews arbitrary: acc)
  case Nil
  then show ?case by simp
next
  case (Cons review rest)
  have "prefix acc (mergeNew (acc @ [review]) rest)"
    using Cons [of "acc @ [review]"] by (rule append_prefixD)
  then show ?case using Cons [of acc] by (simp add: Let_def)
qed

lemma mergeNew_distinct:
  "distinct (map reviewKey acc) \<Longrightarrow>
   distinct (map reviewKey (mergeNew acc currentReviews))"
proof (induction currentReviews arbitrary: acc)
  case Nil
  then show ?case by simp
next
  case (Cons review rest)
  show ?case
  proof (cases "reviewKey review \<in> set (map reviewKey acc)")
    case True
    then show ?thesis using Cons by (simp add: isDuplicate_iff del: set_map)
  next
    case False
    then have "distinct (map reviewKey (acc @ [review]))"
      using Cons.prems by simp
    then have "distinct (map reviewKey (mergeNew (acc @ [review]) rest))"
      by (rule Cons.IH)
    then show ?thesis using Cons by (simp add: isDuplicate_iff Let_def del: set_map)
  qed
qed

lemma mergeFinal_prefix: "prefix acc (mergeFinal acc finalReviews)"
proof (induction finalReviews arbitrary: acc)
  case Nil
  then show ?case by simp
next
  case (Cons review rest)
  have "prefix acc (mergeFinal (acc @ [review]) rest)"
    using Cons [of "acc @ [review]"] by (rule append_prefixD)
  then show ?case using Cons [of acc] by (simp add: Let_def)
qed

lemma mergeFinal_distinct:
  "distinct (map reviewKey acc) \<Longrightarrow>
   distinct (map reviewKey (mergeFinal acc finalReviews))"
proof (induction finalReviews arbitrary: acc)
  case Nil
  then show ?case by simp
next
  case (Cons review rest)
  show ?case
  proof (cases "reviewKey review \<in> set (map reviewKey acc)")
    case True
    then show ?thesis using Cons by (simp add: isDuplicate_iff del: set_map)
  next
    case False
    then have "distinct (map reviewKey (acc @ [review]))"
      using Cons.prems by simp
    then have "distinct (map reviewKey (mergeFinal (acc @ [review]) rest))"
      by (rule Cons.IH)
    then show ?thesis using Cons by (simp add: isDuplicate_iff Let_def del: set_map)
  qed
qed

lemma collectorInv_merge:
  assumes "collectorInv s" "prefix (allReviews s) allReviews'"
    "distinct (map reviewKey allReviews')"
    "allReviews s' = allReviews'" "history s' = history s @ [allReviews']"
  shows "collectorInv s'"
proof -
  have "\<forall>snapshot\<in>set (history s). prefix snapshot allReviews'"
    using assms(1,2) by (auto simp: collectorInv_def intro: prefix_order.trans)
  then show ?thesis
    using assms by (auto simp: collectorInv_def sorted_wrt_append)
qed

lemma loopBody_inv:
  assumes "collectorInv s" "loopBody doc s = Continue s' \<or> loopBody doc s = Break s'"
  shows "collectorInv s'"
proof -
  let ?a = "mergeNew (allReviews s) (extraction doc (passes s))"
  have "allReviews s' = ?a" "history s' = history s @ [?a]"
    using assms(2) by (auto simp: loopBody_def Let_def split: if_splits)
  with assms(1) mergeNew_prefix [of "allReviews s"] mergeNew_distinct [of "allReviews s"]
  show ?thesis by (intro collectorInv_merge [of s ?a s']) (auto simp: collectorInv_def)
qed

lemma finalBody_inv:
  assumes "collectorInv s"
    "finalBody doc s finalAttempt = Continue s' \<or> finalBody doc s finalAttempt = Break s'"
  shows "collectorInv s'"
proof -
  let ?a = "mergeFinal (allReviews s) (extraction doc (passes s))"
  have "allReviews s' = ?a" "history s' = history s @ [?a]"
    using assms(2) by (auto simp: finalBody_def Let_def split: if_splits)
  with assms(1) mergeFinal_prefix [of "allReviews s"] mergeFinal_distinct [of "allReviews s"]
  show ?thesis by (intro collectorInv_merge [of s ?a s']) (auto simp: collectorInv_def)
qed

lemma mainLoop_inv: "collectorInv s \<Longrightarrow> collectorInv (mainLoop doc s)"
proof (induction doc s rule: mainLoop.induct)
  case (1 doc s)
  show ?case
  proof (cases "length (allReviews s) < 100 \<and> attempts s < maxAttempts
           \<and> consecutiveNoNewReviews s < 10")
    case False
    then have "mainLoop doc s = s" by (subst mainLoop.simps) auto
    then show ?thesis using "1.prems" by simp
  next
    case guard: True
    show ?thesis
    proof (cases "loopBody doc s")
      case (Continue s')
      then have "collectorInv s'" using loopBody_inv "1.prems" by blast
      moreover have "mainLoop doc s = mainLoop doc s'"
        using guard Continue by (subst mainLoop.simps) simp
      ultimately show ?thesis using "1.IH" [OF guard Continue] by simp
    next
      case (Break s')
      then have "collectorInv s'" using loopBody_inv "1.prems" by blast
      moreover have "mainLoop doc s = s'"
        using guard Break by (subst mainLoop.simps) simp
      ultimately show ?thesis by simp
    qed
  qed
qed

lemma finalLoop_inv: "collectorInv s \<Longrightarrow> collectorInv (finalLoop doc s finalAttempt)"
proof (induction doc s finalAttempt rule: finalLoop.induct)
  case (1 doc s finalAttempt)
  show ?case
  proof (cases "finalAttempt < 8 \<and> length (allReviews s) < 95")
    case False
    then have "finalLoop doc s finalAttempt = s" by (subst finalLoop.simps) auto
    then show ?thesis using "1.prems" by simp
  next
    case guard: True
    show ?thesis
    proof (cases "finalBody doc s finalAttempt")
      case (Continue s')
      then have "collectorInv s'" using finalBody_inv "1.prems" by blast
      moreover have "finalLoop doc s finalAttempt = finalLoop doc s' (finalAttempt + 1)"
        using guard Continue by (subst finalLoop.simps) simp
      ultimately show ?thesis using "1.IH" [OF guard Continue] by simp
    next
      case (Break s')
      then have "collectorInv s'" using finalBody_inv "1.prems" by blast
      moreover have "finalLoop doc s finalAttempt = s'"
        using guard Break by (subst finalLoop.simps) simp
      ultimately show ?thesis by simp
    qed
  qed
qed

lemma runCollector_inv: "collectorInv (runCollector doc)"
proof -
  have "collectorInv initCollector" by (simp add: collectorInv_def initCollector_def)
  then have "collectorInv (mainLoop doc initCollector)" by (rule mainLoop_inv)
  then show ?thesis using finalLoop_inv by (simp add: runCollector_def Let_def)
qed

lemma sorted_length_of_prefix: "sorted_wrt prefix xss \<Longrightarrow> sorted (map length xss)"
  by (induction xss) (auto simp: prefix_length_le)

text \<open>
  Claim C5 (deduplication and monotonicity). For every page, every state of \<^verbatim>\<open>allReviews\<close>
  after a merge, in the main loop and in the final push (these states are the elements of
  \<^const>\<open>history\<close>), holds no two records with the same name and the same text; each state is
  an initial segment of the next, so records are only appended and the size never
  decreases; and the returned list has no two such records either.
\<close>

theorem collector_dedup_monotone:
  "(\<forall>snapshot\<in>set (history (runCollector doc)). distinct (map reviewKey snapshot))
   \<and> sorted_wrt prefix (history (runCollector doc))
   \<and> sorted (map length (history (runCollector doc)))
   \<and> distinct (map reviewKey (collectReviewsWithScrolling doc))"
proof -
  have inv: "collectorInv (runCollector doc)" by (rule runCollector_inv)
  then have "distinct (map reviewKey (allReviews (runCollector doc)))"
    by (simp add: collectorInv_def)
  then have "distinct (map reviewKey (collectReviewsWithScrolling doc))"
    unfolding collectReviewsWithScrolling_def take_map [symmetric] by (rule distinct_take)
  then show ?thesis
    using inv sorted_length_of_prefix [of "history (runCollector doc)"]
    by (simp add: collectorInv_def)
qed

theorem collector_dedup_monotone_witness:
  "collectReviewsWithScrolling examplePage
     = [mkReview ''Ana'' ''Great place'', mkReview ''Ben'' ''Too noisy'',
        mkReview ''Ana'' ''Too noisy'']
   \<and> distinct (map reviewKey (collectReviewsWithScrolling examplePage))
   \<and> sorted (map length (history (runCollector examplePage)))"
  using collector_dedup_monotone [of examplePage]
  by (simp add: collectReviewsWithScrolling_def runCollector_def mainLoop.simps loopBody_def
        examplePage_def initCollector_def maxAttempts_def mkReview_def truthy_def Let_def)

section \<open>Proofs: the extractor\<close>

subsection \<open>The rating\<close>

lemma jsIncludes_iff: "jsIncludes s sub \<longleftrightarrow> (\<exists>u. suffix u s \<and> prefix sub u)"
proof (induction s)
  case Nil
  then show ?case by auto
next
  case (Cons c s)
  show ?case
  proof
    assume "jsIncludes (c # s) sub"
    then consider "prefix sub (c # s)" | "jsIncludes s sub" by auto
    then show "\<exists>u. suffix u (c # s) \<and> prefix sub u"
    proof cases
      case 1
      then show ?thesis by (intro exI [of _ "c # s"]) simp
    next
      case 2
      then obtain u where "suffix u s" "prefix sub u" using Cons by blast
      then show ?thesis by (intro exI [of _ u]) (simp add: suffix_Cons)
    qed
  next
    assume "\<exists>u. suffix u (c # s) \<and> prefix sub u"
    then obtain u where u: "suffix u (c # s)" "prefix sub u" by blast
    then consider "u = c # s" | "suffix u s" by (auto simp: suffix_Cons)
    then show "jsIncludes (c # s) sub"
    proof cases
      case 1
      then show ?thesis using u by simp
    next
      case 2
      then show ?thesis using u Cons by auto
    qed
  qed
qed

lemma ratingAt_Some:
  assumes "ratingAt u = Some digits"
  shows "prefix ''Rating,'' u \<and> (\<exists>v. suffix v u \<and> prefix ''star'' v)"
proof -
  let ?v = "dropWhile isSpace (dropWhile isDigit (dropWhile isSpace (drop 7 u)))"
  have p: "prefix ''Rating,'' u" "prefix ''star'' ?v"
    using assms by (auto simp: ratingAt_def Let_def split: if_splits)
  have "suffix ?v (dropWhile isDigit (dropWhile isSpace (drop 7 u)))"
    by (rule suffix_dropWhile)
  also have "suffix \<dots> (dropWhile isSpace (drop 7 u))" by (rule suffix_dropWhile)
  also have "suffix \<dots> (drop 7 u)" by (rule suffix_dropWhile)
  also have "suffix \<dots> u" by (rule suffix_drop)
  finally have "suffix ?v u" .
  then show ?thesis using p by blast
qed

lemma matchRating_Some:
  assumes "matchRating t = Some digits"
  shows "\<exists>u. suffix u t \<and> ratingAt u = Some digits"
  using assms
proof (induction t)
  case Nil
  then show ?case by auto
next
  case (Cons c t)
  show ?case
  proof (cases "ratingAt (c # t)")
    case None
    then have "matchRating t = Some digits" using Cons.prems by simp
    then obtain u where "suffix u t" "ratingAt u = Some digits" using Cons.IH by blast
    then show ?thesis by (intro exI [of _ u]) (simp add: suffix_Cons)
  next
    case (Some d)
    then have "ratingAt (c # t) = Some digits" using Cons.prems by simp
    then show ?thesis by (intro exI [of _ "c # t"]) simp
  qed
qed

lemma matchRating_includes:
  assumes "matchRating t = Some digits"
  shows "t \<noteq> [] \<and> jsIncludes t ''Rating,'' \<and> jsIncludes t ''star''"
proof -
  obtain u where u: "suffix u t" "ratingAt u = Some digits"
    using matchRating_Some [OF assms] by blast
  then obtain v where v: "prefix ''Rating,'' u" "suffix v u" "prefix ''star'' v"
    using ratingAt_Some by blast
  have "suffix v t" using v(2) u(1) by (rule suffix_order.trans)
  moreover have "t \<noteq> []" using u(1) v(1) by auto
  ultimately show ?thesis using u(1) v(1,3) unfolding jsIncludes_iff by blast
qed

lemma ratingFromText_cue:
  "ratingFromText allSpans =
     (case ratingCue allSpans of None \<Rightarrow> Whole 0 | Some digits \<Rightarrow> parseInt digits)"
proof (induction allSpans)
  case Nil
  then show ?case by simp
next
  case (Cons t rest)
  show ?case
  proof (cases "matchRating t")
    case None
    then show ?thesis using Cons by simp
  next
    case (Some digits)
    then show ?thesis using matchRating_includes [OF Some] by simp
  qed
qed

lemma bitLength_lower: "m \<noteq> 0 \<Longrightarrow> 2 ^ bitLength m \<le> 2 * m"
proof (induction m rule: bitLength.induct)
  case (1 n)
  show ?case
  proof (cases "n div 2 = 0")
    case True
    then have "n = 1" using "1.prems" by auto
    then show ?thesis by (simp add: bitLength.simps)
  next
    case False
    then have "2 ^ bitLength (n div 2) \<le> 2 * (n div 2)" using "1.IH" "1.prems" by simp
    also have "\<dots> \<le> n" by simp
    finally have "2 * 2 ^ bitLength (n div 2) \<le> 2 * n" by simp
    then show ?thesis using "1.prems" by (subst bitLength.simps) simp
  qed
qed

lemma roundNat_positive:
  assumes "0 < m"
  shows "0 < roundNat m"
proof (cases "m \<le> 2 ^ 53")
  case True
  then show ?thesis using assms by (simp add: roundNat_def)
next
  case False
  define e where "e = bitLength m - 53"
  have "2 ^ bitLength m \<le> 2 * m" using assms by (intro bitLength_lower) simp
  moreover have "(2::nat) * 2 ^ e \<le> 2 ^ bitLength m"
  proof -
    have "Suc e \<le> bitLength m"
    proof (rule ccontr)
      assume "\<not> Suc e \<le> bitLength m"
      then have "bitLength m = 0" by (simp add: e_def)
      then show False using assms by (subst (asm) bitLength.simps) simp
    qed
    then have "(2::nat) ^ Suc e \<le> 2 ^ bitLength m" by (rule power_increasing) simp
    then show ?thesis by simp
  qed
  ultimately have "2 ^ e \<le> m" by simp
  then have "0 < m div 2 ^ e" by (simp add: div_greater_zero_iff)
  then show ?thesis using False by (simp add: roundNat_def Let_def e_def)
qed

text \<open>
  What \<^const>\<open>parseInt\<close> gives: the number written up to \<open>2^53\<close>, and beyond it a number
  greater than \<open>0\<close>.
\<close>

lemma parseInt_exact:
  "digitsValue digits \<le> 2 ^ 53 \<Longrightarrow> parseInt digits = Whole (int (digitsValue digits))"
proof -
  assume a: "digitsValue digits \<le> 2 ^ 53"
  have "(2::nat) ^ 53 < 10 ^ 20" by simp
  then have "digitsValue digits < 10 ^ 20" using a by (rule le_less_trans [rotated])
  moreover have "\<bar>int (digitsValue digits)\<bar> \<le> 2 ^ 53"
    using a by (simp add: of_nat_le_iff [of _ "2 ^ 53", simplified])
  ultimately show ?thesis by (simp add: parseInt_def toDouble_exact)
qed

lemma parseInt_positive:
  assumes "0 < digitsValue digits"
  shows "parseInt digits = Other \<or> (\<exists>n. parseInt digits = Whole n \<and> 0 < n)"
  using roundNat_positive [OF assms] by (simp add: parseInt_def toDouble_def Let_def)

text \<open>
  Claim C8 (rating cascade), as the code has it, for every element of the primary mode. Let
  \<open>N\<close> be the number written in the first span with a \<^verbatim>\<open>Rating, N stars\<close> cue. When
  \<open>1 \<le> N \<le> 2^53\<close>, the rating is \<open>N\<close>; when \<open>N\<close> is larger, the rating is what \<^verbatim>\<open>parseInt\<close>
  makes of the digits, the double nearest to \<open>N\<close> as long as they are at most 20. Otherwise,
  that is without a cue and also when \<open>N\<close> is \<open>0\<close>, the rating is the count of star glyphs
  when this is between 1 and 5; otherwise it is 5 when the review text has more than 20
  characters; otherwise the record has no rating.
\<close>

theorem rating_cascade:
  "rating (processReviewElement element) =
     (case ratingCue (spans element) of
        Some digits \<Rightarrow>
          if digitsValue digits = 0 then ratingWithoutCue element
          else if digitsValue digits \<le> 2 ^ 53 then Some (Whole (int (digitsValue digits)))
          else Some (parseInt digits)
      | None \<Rightarrow> ratingWithoutCue element)"
proof (cases "ratingCue (spans element)")
  case None
  then show ?thesis
    by (simp add: processReviewElement_def elementRating_def ratingFromText_cue
          ratingWithoutCue_def Let_def)
next
  case (Some digits)
  consider "digitsValue digits = 0" | "0 < digitsValue digits" "digitsValue digits \<le> 2 ^ 53"
    | "\<not> digitsValue digits \<le> 2 ^ 53"
    by linarith
  then show ?thesis
  proof cases
    case 1
    then have "parseInt digits = Whole 0" using parseInt_exact [of digits] by simp
    then show ?thesis
      using Some 1
      by (simp add: processReviewElement_def elementRating_def ratingFromText_cue
            ratingWithoutCue_def Let_def)
  next
    case 2
    then have "parseInt digits = Whole (int (digitsValue digits))" by (simp add: parseInt_exact)
    then show ?thesis
      using Some 2
      by (simp add: processReviewElement_def elementRating_def ratingFromText_cue Let_def)
  next
    case 3
    then have "0 < digitsValue digits" by (cases "digitsValue digits = 0") simp_all
    from parseInt_positive [OF this] show ?thesis
      using Some 3 \<open>0 < digitsValue digits\<close>
      by (auto simp: processReviewElement_def elementRating_def ratingFromText_cue Let_def)
  qed
qed

theorem rating_cascade_witness:
  "ratingCue (spans ratedElement) = Some ''4''
   \<and> rating (processReviewElement ratedElement) = Some (Whole 4)"
  using rating_cascade [of ratedElement]
  by (simp add: ratedElement_def plainElement_def ratingAt_def isSpace_def isDigit_def
        digitsValue_def)

text \<open>
  Claim C8 as stated fails for the cue \<^verbatim>\<open>Rating, 0 stars\<close>: the parsed number is \<open>0\<close>, which
  \<^verbatim>\<open>starCount\<close> also holds when nothing was found, so the second method runs and the
  rating is the number of glyphs, here 3.
\<close>

theorem rating_cascade_counterexample:
  "ratingCue (spans zeroStarsElement) = Some ''0''
   \<and> parseInt ''0'' = Whole 0
   \<and> rating (processReviewElement zeroStarsElement) = Some (Whole 3)"
  by (simp add: zeroStarsElement_def plainElement_def ratingAt_def isSpace_def isDigit_def
        parseInt_def digitsValue_def toDouble_exact processReviewElement_def elementRating_def
        Let_def)

text \<open>
  Beyond \<open>2^53\<close> the rating is a rounded number: for the cue
  \<^verbatim>\<open>Rating, 9007199254740993 stars\<close> it is \<open>9007199254740992\<close>.
\<close>

lemma rating_rounded:
  "ratingCue (spans hugeStarsElement) = Some ''9007199254740993''
   \<and> rating (processReviewElement hugeStarsElement) = Some (Whole 9007199254740992)"
proof -
  have d: "digitsValue ''9007199254740993'' = 9007199254740993"
    by (simp add: digitsValue_def)
  have p: "parseInt ''9007199254740993'' = Whole 9007199254740992"
    unfolding parseInt_def d
    by (simp add: toDouble_def roundNat_def bitLength.simps Let_def)
  have c: "ratingCue (spans hugeStarsElement) = Some ''9007199254740993''"
    by (simp add: hugeStarsElement_def plainElement_def ratingAt_def isSpace_def isDigit_def)
  have m: "ratingFromText (spans hugeStarsElement) = Whole 9007199254740992"
    unfolding ratingFromText_cue c using p by simp
  show ?thesis
    using c m by (simp add: processReviewElement_def elementRating_def Let_def)
qed

subsection \<open>Which records are kept\<close>

lemma longText_truthy: "longText t \<Longrightarrow> truthy t"
  by (auto simp: longText_def truthy_def split: option.splits)

lemma primaryLoop_kept:
  assumes "\<forall>r\<in>set reviews. \<exists>element\<in>S. keptFrom element r" "set elements \<subseteq> S"
  shows "\<forall>r\<in>set (primaryLoop reviews elements). \<exists>element\<in>S. keptFrom element r"
  using assms
proof (induction elements arbitrary: reviews)
  case Nil
  then show ?case by simp
next
  case (Cons element rest)
  let ?review = "processReviewElement element"
  have f: "name ?review = elementName element" "reviewText ?review = elementText element"
    by (simp_all add: processReviewElement_def Let_def)
  have inS: "element \<in> S" "set rest \<subseteq> S" using Cons.prems(2) by auto
  have skip: "\<forall>r\<in>set (primaryLoop reviews rest). \<exists>element\<in>S. keptFrom element r"
    using Cons.IH [OF Cons.prems(1) inS(2)] .
  show ?case
  proof (cases "truthy (name ?review) \<and> truthy (reviewText ?review)")
    case True
    then have "keptFrom element ?review" using f by (simp add: keptFrom_def)
    then have "\<forall>r\<in>set (reviews @ [?review]). \<exists>element\<in>S. keptFrom element r"
      using Cons.prems(1) inS(1) by auto
    from Cons.IH [OF this inS(2)] show ?thesis using True skip by (simp add: Let_def)
  next
    case noName: False
    show ?thesis
    proof (cases "longText (reviewText ?review)")
      case True
      then have "\<not> truthy (elementName element)"
        using noName f longText_truthy by auto
      then have "keptFrom element (?review\<lparr>name := Some ''Anonymous''\<rparr>)"
        using True f longText_truthy by (simp add: keptFrom_def)
      then have "\<forall>r\<in>set (reviews @ [?review\<lparr>name := Some ''Anonymous''\<rparr>]).
                    \<exists>element\<in>S. keptFrom element r"
        using Cons.prems(1) inS(1) by auto
      from Cons.IH [OF this inS(2)] show ?thesis using True noName skip by (auto simp: Let_def)
    next
      case False
      then show ?thesis using noName skip by (auto simp: Let_def)
    qed
  qed
qed

lemma fallbackLoop_kept:
  assumes "\<forall>r\<in>set reviews. truthy (name r) \<or> truthy (reviewText r)"
  shows "\<forall>r\<in>set (fallbackLoop reviews elements). truthy (name r) \<or> truthy (reviewText r)"
  using assms
proof (induction elements arbitrary: reviews)
  case Nil
  then show ?case by simp
next
  case (Cons element rest)
  let ?review = "processFallbackElement element"
  have skip: "\<forall>r\<in>set (fallbackLoop reviews rest). truthy (name r) \<or> truthy (reviewText r)"
    using Cons.IH [OF Cons.prems] .
  show ?case
  proof (cases "truthy (name ?review) \<or> truthy (reviewText ?review)")
    case True
    then have "\<forall>r\<in>set (reviews @ [?review]). truthy (name r) \<or> truthy (reviewText r)"
      using Cons.prems by auto
    from Cons.IH [OF this] show ?thesis using True skip by (simp add: Let_def)
  next
    case False
    then show ?thesis using skip by (simp add: Let_def)
  qed
qed

lemma primaryLoop_length:
  "length reviews \<le> 100 \<Longrightarrow> length (primaryLoop reviews elements) \<le> 100"
  by (induction elements arbitrary: reviews) (auto simp: Let_def)

lemma fallbackLoop_length:
  "length reviews \<le> 100 \<Longrightarrow> length (fallbackLoop reviews elements) \<le> 100"
  by (induction elements arbitrary: reviews) (auto simp: Let_def)

text \<open>
  Claim C7 (retention), as the code has it. In the primary mode (some element carries
  \<^verbatim>\<open>data-review-id\<close>) every returned record has a non-empty text, with the non-empty name
  of its element, or, when that name is missing or empty, a text of more than 20 characters
  and the name \<^verbatim>\<open>Anonymous\<close>. In the fallback mode every returned record has a non-empty
  name or a non-empty text. In both modes at most 100 records are returned.
\<close>

theorem extract_retention:
  "(reviewElements d \<noteq> [] \<longrightarrow>
      (\<forall>r\<in>set (extractReviewsFromDOM d). \<exists>element\<in>set (reviewElements d).
         reviewText r = elementText element \<and> truthy (reviewText r)
         \<and> (truthy (elementName element) \<and> name r = elementName element
            \<or> \<not> truthy (elementName element) \<and> longText (reviewText r)
               \<and> name r = Some ''Anonymous'')))
   \<and> (reviewElements d = [] \<longrightarrow>
      (\<forall>r\<in>set (extractReviewsFromDOM d). truthy (name r) \<or> truthy (reviewText r)))
   \<and> length (extractReviewsFromDOM d) \<le> 100"
proof (intro conjI impI)
  assume "reviewElements d \<noteq> []"
  then have "extractReviewsFromDOM d = primaryLoop [] (reviewElements d)"
    by (simp add: extractReviewsFromDOM_def)
  moreover have "\<forall>r\<in>set (primaryLoop [] (reviewElements d)).
      \<exists>element\<in>set (reviewElements d). keptFrom element r"
    by (rule primaryLoop_kept) simp_all
  ultimately show "\<forall>r\<in>set (extractReviewsFromDOM d). \<exists>element\<in>set (reviewElements d).
         reviewText r = elementText element \<and> truthy (reviewText r)
         \<and> (truthy (elementName element) \<and> name r = elementName element
            \<or> \<not> truthy (elementName element) \<and> longText (reviewText r)
               \<and> name r = Some ''Anonymous'')"
    by (simp add: keptFrom_def)
next
  assume "reviewElements d = []"
  then have "extractReviewsFromDOM d = fallbackLoop [] (fallbackElements d)"
    by (simp add: extractReviewsFromDOM_def)
  moreover have "\<forall>r\<in>set (fallbackLoop [] (fallbackElements d)).
      truthy (name r) \<or> truthy (reviewText r)"
    by (rule fallbackLoop_kept) simp
  ultimately show "\<forall>r\<in>set (extractReviewsFromDOM d). truthy (name r) \<or> truthy (reviewText r)"
    by simp
next
  show "length (extractReviewsFromDOM d) \<le> 100"
    by (simp add: extractReviewsFromDOM_def primaryLoop_length fallbackLoop_length)
qed


theorem extract_retention_witness:
  "reviewElements primaryDom \<noteq> []
   \<and> extractReviewsFromDOM primaryDom =
     [\<lparr>name = Some ''Ana'', location = None, date = None, stayDetails = None,
       reviewText = Some ''Lovely flat'', rating = None\<rparr>,
      \<lparr>name = Some ''Anonymous'', location = None, date = None, stayDetails = None,
       reviewText = Some ''We had a wonderful stay here'', rating = Some (Whole 5)\<rparr>]
   \<and> reviewElements textOnlyDom = []
   \<and> extractReviewsFromDOM textOnlyDom =
     [\<lparr>name = None, location = None, date = None, stayDetails = None,
       reviewText = Some ''Nice'', rating = None\<rparr>]"
  using extract_retention [of primaryDom] extract_retention [of textOnlyDom]
  by (simp add: extractReviewsFromDOM_def primaryDom_def textOnlyDom_def namedElement_def
        namelessElement_def emptyElement_def plainElement_def processReviewElement_def
        processFallbackElement_def elementName_def elementText_def elementRating_def
        longestSpan_def longText_def trimmedContent_def trim_def isSpace_def truthy_def Let_def)

text \<open>
  Claim C7 as stated fails in the fallback mode, whose test is
  \<^verbatim>\<open>review.name || review.text\<close>: an element with a name and no text gives a record
  without text.
\<close>

theorem extract_retention_counterexample:
  "extractReviewsFromDOM nameOnlyDom =
     [\<lparr>name = Some ''Ana'', location = None, date = None, stayDetails = None,
       reviewText = None, rating = None\<rparr>]"
  by (simp add: extractReviewsFromDOM_def nameOnlyDom_def processFallbackElement_def
        trimmedContent_def trim_def isSpace_def truthy_def)

section \<open>Proofs: question answering\<close>

lemma searchBatches_all_marked:
  assumes "allBatchesNotFound m"
  shows "searchBatches m question cache startIndex = NotFound"
proof (induction "length cache - startIndex" arbitrary: startIndex rule: less_induct)
  case less
  show ?case
  proof (cases "startIndex < length cache")
    case False
    then show ?thesis by (subst searchBatches.simps) simp
  next
    case True
    then have "searchBatches m question cache (startIndex + 10) = NotFound"
      by (intro less) simp
    moreover obtain r where
      "prompt m (startIndex div 10)
         (questionPrompt question (join separator (map c_text (take 10 (drop startIndex cache)))))
       = Inr r" "jsIncludes r notFoundMarker"
      using assms unfolding allBatchesNotFound_def by blast
    ultimately show ?thesis
      by (subst searchBatches.simps) (simp add: Let_def)
  qed
qed

lemma searchBatches_found:
  assumes "firstAnswerAt m question cache k response" "j + d = k"
  shows "searchBatches m question cache (10 * j) = Found response"
  using assms(2)
proof (induction d arbitrary: j)
  case 0
  then have jk: "j = k" by simp
  have "10 * k < length cache" "tokensSuffice m question cache k"
    "prompt m k (batchPrompt question cache k) = Inr response"
    "\<not> jsIncludes response notFoundMarker"
    using assms(1) by (simp_all add: firstAnswerAt_def)
  then show ?case unfolding jk
    by (subst searchBatches.simps)
       (auto simp: Let_def tokensSuffice_def batchPrompt_def split: option.splits)
next
  case (Suc d)
  then have jk: "j < k" "Suc j + d = k" by simp_all
  then have "10 * j < length cache" using assms(1) by (simp add: firstAnswerAt_def)
  moreover have "tokensSuffice m question cache j" using jk assms(1) by (simp add: firstAnswerAt_def)
  moreover obtain r where "prompt m j (batchPrompt question cache j) = Inr r"
      "jsIncludes r notFoundMarker"
    using jk assms(1) unfolding firstAnswerAt_def by blast
  moreover have "searchBatches m question cache (10 * j + 10) = Found response"
    using Suc.IH [OF jk(2)] by (simp add: add.commute)
  ultimately show ?case
    by (subst searchBatches.simps)
       (auto simp: Let_def tokensSuffice_def batchPrompt_def split: option.splits)
qed

lemma buildReviewCache_sample: "buildReviewCache [guestReview ''Clean and quiet flat''] =
   [\<lparr>c_id = 0, c_text = ''Clean and quiet flat'', original_length = 20, was_truncated = False\<rparr>]"
  by (simp add: buildReviewCache_def guestReview_def reviewBody_def orString_def trim_def
        isSpace_def truncateReview_def MAX_CHARS_PER_REVIEW_def enumerate_eq_zip)

text \<open>
  Claim C9 (grounded answers of \<^verbatim>\<open>askQuestion\<close>), as the code has it, for a non-empty list
  of reviews when the session is created and released without an exception. If every
  response of the model carries the marker \<^verbatim>\<open>NOT_FOUND_IN_THIS_BATCH\<close>, the answer is the
  not-mentioned text. If batch \<open>k\<close> is the first whose response lacks the marker, the search
  stops there (the answer does not depend on what the model would say to later batches) and
  the answer is that response when it is not empty, and the not-mentioned text when it is
  the empty string.
\<close>

theorem askQuestion_grounded:
  assumes "rs \<noteq> []" "createSession m = None" "destroySession m = None"
    and "cache = (case reviewCache of None \<Rightarrow> buildReviewCache rs | Some c \<Rightarrow> c)"
  shows "(allBatchesNotFound m \<longrightarrow>
            askQuestion m reviewCache (Some rs) question = notMentionedAnswer)
       \<and> (firstAnswerAt m question cache k response \<longrightarrow>
            askQuestion m reviewCache (Some rs) question
              = (if response \<noteq> [] then response else notMentionedAnswer))"
proof (intro conjI impI)
  assume "allBatchesNotFound m"
  then have "searchBatches m question cache 0 = NotFound" by (rule searchBatches_all_marked)
  then show "askQuestion m reviewCache (Some rs) question = notMentionedAnswer"
    using assms by (simp add: askQuestion_def)
next
  assume "firstAnswerAt m question cache k response"
  then have "searchBatches m question cache (10 * 0) = Found response"
    by (rule searchBatches_found) simp
  then show "askQuestion m reviewCache (Some rs) question
              = (if response \<noteq> [] then response else notMentionedAnswer)"
    using assms by (simp add: askQuestion_def)
qed

theorem askQuestion_grounded_witness:
  "askQuestion (modelReplying notFoundMarker) None (Some [guestReview ''Clean and quiet flat''])
      ''Is there WiFi?'' = notMentionedAnswer
   \<and> askQuestion (modelReplying ''Guests liked the fast WiFi.'') None
        (Some [guestReview ''Clean and quiet flat'']) ''Is there WiFi?''
      = ''Guests liked the fast WiFi.''"
proof -
  let ?rs = "[guestReview ''Clean and quiet flat'']"
  let ?cache = "buildReviewCache ?rs"
  have a: "allBatchesNotFound (modelReplying notFoundMarker)"
    by (simp add: allBatchesNotFound_def modelReplying_def notFoundMarker_def)
  have b: "firstAnswerAt (modelReplying ''Guests liked the fast WiFi.'') ''Is there WiFi?'' ?cache 0
             ''Guests liked the fast WiFi.''"
    by (simp add: firstAnswerAt_def buildReviewCache_sample tokensSuffice_def modelReplying_def notFoundMarker_def)
  show ?thesis
    using askQuestion_grounded [of ?rs "modelReplying notFoundMarker" ?cache None "''Is there WiFi?''"] a
      askQuestion_grounded [of ?rs "modelReplying ''Guests liked the fast WiFi.''" ?cache None
         "''Is there WiFi?''" 0 "''Guests liked the fast WiFi.''"] b
    by (simp add: modelReplying_def)
qed

text \<open>
  Claim C9 as stated fails for an empty response: it lacks the marker and ends the search,
  but \<^verbatim>\<open>if (answerFound && finalAnswer)\<close> is false for the empty string, and the
  not-mentioned text is returned instead of the response.
\<close>

theorem askQuestion_grounded_counterexample:
  "prompt (modelReplying []) 0
      (batchPrompt ''Is there WiFi?'' (buildReviewCache [guestReview ''Clean and quiet flat'']) 0) = Inr []
   \<and> \<not> jsIncludes [] notFoundMarker
   \<and> askQuestion (modelReplying []) None (Some [guestReview ''Clean and quiet flat''])
        ''Is there WiFi?'' = notMentionedAnswer
   \<and> notMentionedAnswer \<noteq> []"
  by (simp add: askQuestion_def buildReviewCache_sample searchBatches.simps modelReplying_def notFoundMarker_def
        notMentionedAnswer_def Let_def)

section \<open>Proofs: review analysis\<close>

lemma summarizeChunks_all_fail:
  "\<forall>n text. isl (summarize api n text) \<Longrightarrow> summarizeChunks api i chunks = []"
proof (induction chunks arbitrary: i)
  case Nil
  then show ?case by simp
next
  case (Cons chunk chunks)
  then obtain e where "summarize api i (join separator chunk) = Inl e"
    by (metis isl_def)
  then show ?case using Cons by simp
qed

lemma tryAnalysis_all_fail:
  assumes "summarizerSession api = None" "\<forall>n text. isl (summarize api n text)"
  shows "tryAnalysis api rs = Inl (Error ''All chunk summarizations failed'')"
  using assms by (simp add: tryAnalysis_def summarizeChunks_all_fail)

lemma map_of_assign: "map_of (assign props key v) = (map_of props)(key \<mapsto> v)"
  by (induction props key v rule: assign.induct) (auto simp: fun_eq_iff)

lemma fallback_object:
  "\<exists>trust sentiment pros cons rec notrec best improve summary msg.
     fallbackReviewAnalysis pct rs = JObj
       [(''success'', JBool True),
        (''analysis_type'', JStr ''basic_analysis''),
        (''trust_score'', JNum trust),
        (''sentiment_analysis'', sentiment),
        (''keyword_analysis'', JArr []),
        (''pros_and_cons'', JObj [(''pros'', JArr pros), (''cons'', JArr cons)]),
        (''guest_insights'', JObj
            [(''recommended_for'', JArr rec),
             (''not_recommended_for'', JArr notrec),
             (''best_features'', JArr best),
             (''areas_for_improvement'', JArr improve)]),
        (''summary'', JStr summary),
        (''reviews_analyzed'', JNum (int (length rs))),
        (''message'', JStr msg)]"
  unfolding fallbackReviewAnalysis_def Let_def by blast


lemma fallback_is_object: "\<exists>props. fallbackReviewAnalysis pct rs = JObj props"
  using fallback_object [of pct rs] by blast

lemma fallback_required:
  "key \<in> set requiredKeys \<Longrightarrow> getField (fallbackReviewAnalysis pct rs) key \<noteq> None"
  using fallback_object [of pct rs] by (auto simp: requiredKeys_def)

lemma fallback_keyword_analysis:
  "getField (fallbackReviewAnalysis pct rs) ''keyword_analysis'' = Some (JArr [])"
  using fallback_object [of pct rs] by auto

lemma getField_setField:
  "getField (setField (JObj props) key v) key' = (if key' = key then Some v else getField (JObj props) key')"
  by (simp add: map_of_assign)

lemma setField_keeps:
  assumes "getField obj key' \<noteq> None"
  shows "getField (setField obj key v) key' \<noteq> None"
proof (cases obj)
  case (JObj props)
  then show ?thesis using assms by (simp add: map_of_assign)
qed (use assms in simp_all)

lemma analyzeReviews_caught:
  assumes "rs \<noteq> []" "tryAnalysis api rs = Inl error"
  shows "\<exists>result. analyzeReviews api False (Some rs) = Inr result
           \<and> (\<forall>key\<in>set requiredKeys. getField result key \<noteq> None)"
proof -
  let ?fb = "fallbackReviewAnalysis (percent api) (take 100 rs)"
  have fb: "\<forall>key\<in>set requiredKeys. getField ?fb key \<noteq> None"
    using fallback_required by blast
  show ?thesis
  proof (cases "message error = ''SUMMARIZER_UNAVAILABLE''")
    case False
    then have "analyzeReviews api False (Some rs)
                 = Inr (setField ?fb ''message'' (JStr errorOccurredMessage))"
      using assms by (simp add: analyzeReviews_def Let_def)
    then show ?thesis using fb setField_keeps by auto
  next
    case unavailable: True
    show ?thesis
    proof (cases "promptExtraction api")
      case (Inl promptError)
      then have "analyzeReviews api False (Some rs)
                 = Inr (setField ?fb ''message'' (JStr bothUnavailableMessage))"
        using assms unavailable by (simp add: analyzeReviews_def Let_def)
      then show ?thesis using fb setField_keeps by auto
    next
      case (Inr structuredData)
      then obtain result where r: "analyzeReviews api False (Some rs) = Inr result"
        "\<exists>a b c d e ka kb kc kd ke. result = setField (setField (setField (setField (setField ?fb
            ka a) kb b) kc c) kd d) ke e"
        using assms unavailable by (simp add: analyzeReviews_def Let_def) blast
      then have "\<forall>key\<in>set requiredKeys. getField result key \<noteq> None"
        using fb setField_keeps by auto
      then show ?thesis using r(1) by blast
    qed
  qed
qed

lemma failingAI_fails:
  "summarizerSession failingAI = None \<and> (\<forall>n text. isl (summarize failingAI n text))"
  by (simp add: failingAI_def)

text \<open>
  Claim C1 (fallback completeness), as the code has it, for a non-empty list of reviews and
  no analysis in progress. Whenever the \<^verbatim>\<open>try\<close> block raises, for whatever reason,
  \<^verbatim>\<open>analyzeReviews\<close> raises nothing and returns an object that has every required key. When
  the summarizer session exists and \<^verbatim>\<open>summarize\<close> fails for every chunk, the returned object
  is the result of \<^verbatim>\<open>fallbackReviewAnalysis\<close> on the first 100 reviews with the message
  replaced, and its \<^verbatim>\<open>keyword_analysis\<close> is the empty array: no aspect has a tally.
\<close>

theorem analyzeReviews_fallback:
  assumes "rs \<noteq> []"
  shows "(isl (tryAnalysis api rs) \<longrightarrow>
            (\<exists>result. analyzeReviews api False (Some rs) = Inr result
               \<and> (\<forall>key\<in>set requiredKeys. getField result key \<noteq> None)))
       \<and> (summarizerSession api = None \<and> (\<forall>n text. isl (summarize api n text)) \<longrightarrow>
            analyzeReviews api False (Some rs)
              = Inr (setField (fallbackReviewAnalysis (percent api) (take 100 rs))
                       ''message'' (JStr errorOccurredMessage))
            \<and> resultField (analyzeReviews api False (Some rs)) ''keyword_analysis''
                = Some (JArr []))"
proof (intro conjI impI)
  assume "isl (tryAnalysis api rs)"
  then obtain error where "tryAnalysis api rs = Inl error" by (auto simp: isl_def)
  with assms show "\<exists>result. analyzeReviews api False (Some rs) = Inr result
               \<and> (\<forall>key\<in>set requiredKeys. getField result key \<noteq> None)"
    by (rule analyzeReviews_caught)
next
  assume a: "summarizerSession api = None \<and> (\<forall>n text. isl (summarize api n text))"
  then have t: "tryAnalysis api rs = Inl (Error ''All chunk summarizations failed'')"
    by (simp add: tryAnalysis_all_fail)
  then show r: "analyzeReviews api False (Some rs)
              = Inr (setField (fallbackReviewAnalysis (percent api) (take 100 rs))
                       ''message'' (JStr errorOccurredMessage))"
    using assms by (simp add: analyzeReviews_def Let_def)
  obtain props where "fallbackReviewAnalysis (percent api) (take 100 rs) = JObj props"
    using fallback_is_object by blast
  then show "resultField (analyzeReviews api False (Some rs)) ''keyword_analysis'' = Some (JArr [])"
    using fallback_keyword_analysis [of "percent api" "take 100 rs"]
    unfolding r by (simp add: resultField_def map_of_assign)
qed


theorem analyzeReviews_fallback_witness:
  "[guestReview ''Clean and quiet flat''] \<noteq> []
   \<and> summarizerSession failingAI = None
   \<and> isl (summarize failingAI 0 ''Clean and quiet flat'')
   \<and> isl (tryAnalysis failingAI [guestReview ''Clean and quiet flat''])
   \<and> \<not> isl (analyzeReviews failingAI False (Some [guestReview ''Clean and quiet flat'']))
   \<and> resultField (analyzeReviews failingAI False (Some [guestReview ''Clean and quiet flat'']))
        ''keyword_analysis'' = Some (JArr [])"
proof -
  have "isl (tryAnalysis failingAI [guestReview ''Clean and quiet flat''])"
    using failingAI_fails by (simp add: tryAnalysis_all_fail)
  then show ?thesis
    using analyzeReviews_fallback [of "[guestReview ''Clean and quiet flat'']" failingAI]
      failingAI_fails
    by (auto simp: failingAI_def)
qed

text \<open>
  Claim C1 as stated fails in its promise of tallies for all nine aspects: with one review
  and an API that fails on every chunk, \<^verbatim>\<open>keyword_analysis\<close> of the result is empty.
\<close>

theorem analyzeReviews_fallback_counterexample:
  "resultField (analyzeReviews failingAI False (Some [guestReview ''Clean and quiet flat'']))
      ''keyword_analysis'' = Some (JArr [])"
proof -
  let ?rs = "[guestReview ''Clean and quiet flat'']"
  have t: "tryAnalysis failingAI ?rs = Inl (Error ''All chunk summarizations failed'')"
    using failingAI_fails by (simp add: tryAnalysis_all_fail)
  obtain props where p: "fallbackReviewAnalysis (percent failingAI) (take 100 ?rs) = JObj props"
    using fallback_is_object by blast
  have "analyzeReviews failingAI False (Some ?rs)
          = Inr (setField (fallbackReviewAnalysis (percent failingAI) (take 100 ?rs))
                   ''message'' (JStr errorOccurredMessage))"
    using t by (simp add: analyzeReviews_def Let_def)
  then show ?thesis
    using fallback_keyword_analysis [of "percent failingAI" "take 100 ?rs"] p
    by (simp add: resultField_def map_of_assign)
qed

text \<open>
  Claim C6 (no reviews), as the code has it: for \<^verbatim>\<open>null\<close> and for the empty list,
  \<^verbatim>\<open>askQuestion\<close> returns the text that no reviews are available, and \<^verbatim>\<open>analyzeReviews\<close>
  raises \<^verbatim>\<open>Error('No reviews to analyze')\<close> to its caller, whatever the state of the APIs.
\<close>

theorem no_reviews_results:
  "askQuestion m reviewCache None question = noReviewsAnswer
   \<and> askQuestion m reviewCache (Some []) question = noReviewsAnswer
   \<and> analyzeReviews api isAnalyzing None = Inl (Error ''No reviews to analyze'')
   \<and> analyzeReviews api isAnalyzing (Some []) = Inl (Error ''No reviews to analyze'')"
  by (simp add: askQuestion_def analyzeReviews_def)


theorem no_reviews_results_witness:
  "askQuestion (modelReplying []) None (Some []) ''Is there WiFi?''
     = ''No reviews available to answer your question.''
   \<and> analyzeReviews failingAI True None = Inl (Error ''No reviews to analyze'')"
  using no_reviews_results [of "modelReplying []" None "''Is there WiFi?''" failingAI True]
  by (simp add: noReviewsAnswer_def)

text \<open>
  Claim C6 as stated fails for \<^verbatim>\<open>analyzeReviews\<close>: the guard stands before the \<^verbatim>\<open>try\<close>
  block, and the call ends with an exception, not with a result.
\<close>

theorem no_reviews_results_counterexample:
  "analyzeReviews failingAI False None = Inl (Error ''No reviews to analyze'')
   \<and> analyzeReviews failingAI False (Some []) = Inl (Error ''No reviews to analyze'')"
  by (simp add: analyzeReviews_def)

end
